theory Spec2Isabelle
  imports Main "HOL-Library.AList" "HOL-Library.Char_ord" "HOL-Library.List_Lexorder"
begin

section \<open>Data model of \<^verbatim>\<open>unoserver/converter.py\<close>\<close>

text \<open>
  The module drives a remote office engine. Everything the engine, the file system and
  the Python runtime decide is kept in two records: \<open>engine\<close> holds the behaviour of the
  outside world (it is never changed by the code), \<open>world\<close> holds what the code changes:
  the two cache fields of \<^verbatim>\<open>UnoConverter\<close>, the files on disk, and the sequence of
  remote calls made so far.

  Python \<^verbatim>\<open>bytes\<close> are \<open>string\<close>, and a Python \<^verbatim>\<open>str\<close> is the \<open>string\<close> of its
  UTF-8 bytes: equality, the tests for \<^verbatim>\<open>=\<close> and \<^verbatim>\<open>.\<close>, the split at the first
  \<^verbatim>\<open>=\<close> and the order \<^verbatim>\<open>sorted\<close> uses are the same on the bytes as on the code
  points. An optional argument is an
  \<open>option\<close>; a Python \<^verbatim>\<open>dict\<close> with string keys is an association list in insertion
  order, written with \<open>AList.update\<close> (a new key goes to the end, an old key keeps its
  place and takes the new value) and read with \<open>map_of\<close>.
\<close>

type_synonym bytes = string

type_synonym dict = "(string \<times> string) list"

text \<open>
  The dictionary \<^verbatim>\<open>prop2dict\<close> builds from one element of the engine's filter
  enumeration. The code reads the four keys below and no other; the engine's filter
  catalogue supplies all four for every filter, \<^verbatim>\<open>UserData\<close> being a sequence of
  strings.
\<close>

record filter_desc =
  Name :: string
  DocumentService :: string
  Type :: string
  UserData :: "string list"

text \<open>Exceptions raised by a remote call or by attribute lookup on a remote object.\<close>

datatype exn = AttributeError | UnoException string

text \<open>
  Values of a \<^verbatim>\<open>PropertyValue\<close>: Python \<^verbatim>\<open>bool\<close>, \<^verbatim>\<open>int\<close>, \<^verbatim>\<open>str\<close>, and the
  \<^verbatim>\<open>uno.Any\<close> holding a tuple of property values.
\<close>

datatype uno_value =
    VBool bool
  | VInt int
  | VStr string
  | VSeq "(string \<times> uno_value) list"

type_synonym PropertyValue = "string \<times> uno_value"

text \<open>The remote calls, in the order the code makes them.\<close>

datatype event =
    CatalogQuery string
  | LoadComponentFromURL string "PropertyValue list"
  | Refresh
  | GetDocumentIndexes
  | IndexUpdate nat
  | QueryTypeByURL string
  | StoreToURL string "PropertyValue list"
  | CloseDocument

text \<open>
  A loaded document, as far as the code observes it: its supported service names, what
  \<^verbatim>\<open>refresh()\<close> and \<^verbatim>\<open>getDocumentIndexes()\<close> do on pass \<open>ii\<close> of the index loop (the
  index collection is the list of what each index's \<^verbatim>\<open>update()\<close> does), and what
  \<^verbatim>\<open>storeToURL\<close> does: raise, or write these bytes to the location.
\<close>

record document =
  getSupportedServiceNames :: "string list"
  refresh :: "nat \<Rightarrow> exn option"
  getDocumentIndexes :: "nat \<Rightarrow> exn + exn option list"
  storeToURL :: "string \<Rightarrow> PropertyValue list \<Rightarrow> exn + bytes"

text \<open>
  The outside world. \<open>catalog\<close> answers \<^verbatim>\<open>createSubSetEnumerationByQuery\<close>, and its
  answer may depend on the calls made before; \<open>fileUrl\<close> is
  \<^verbatim>\<open>uno.systemPathToFileUrl(os.path.abspath(p))\<close>; \<open>tempName n suffix\<close> is the name
  \<^verbatim>\<open>tempfile.NamedTemporaryFile\<close> picks for the \<open>n\<close>-th temporary file; \<open>splitext\<close> is
  \<^verbatim>\<open>os.path.splitext(p)[-1]\<close>; \<open>set_pop\<close> is the element \<^verbatim>\<open>set.pop()\<close> removes from
  a set with the given elements (Python leaves the choice open); \<open>isdecimal\<close> is
  \<^verbatim>\<open>str.isdecimal\<close>, which holds of the non-empty strings of decimal digits of any
  script, and \<open>int_str\<close> is \<^verbatim>\<open>int\<close> on a string, \<open>None\<close> when it raises
  \<^verbatim>\<open>ValueError\<close> (as it does for more digits than the interpreter's limit).
\<close>

record engine =
  catalog :: "event list \<Rightarrow> string \<Rightarrow> filter_desc list"
  loadComponentFromURL :: "string \<Rightarrow> PropertyValue list \<Rightarrow> exn + document option"
  queryTypeByURL :: "string \<Rightarrow> string"
  fileUrl :: "string \<Rightarrow> string"
  tempName :: "nat \<Rightarrow> string \<Rightarrow> string"
  splitext :: "string \<Rightarrow> string"
  set_pop :: "string list \<Rightarrow> string"
  isdecimal :: "string \<Rightarrow> bool"
  int_str :: "string \<Rightarrow> int option"

record world =
  import_filters :: "filter_desc list option"
  export_filters :: "filter_desc list option"
  files :: "string \<rightharpoonup> bytes"
  temps :: nat
  trace :: "event list"

definition log :: "event \<Rightarrow> world \<Rightarrow> world" where
  "log e w = w\<lparr>trace := trace w @ [e]\<rparr>"

text \<open>
  What \<^verbatim>\<open>convert\<close> raises: one constructor for each \<^verbatim>\<open>raise\<close> of the source, the
  \<^verbatim>\<open>TypeError\<close> of \<^verbatim>\<open>"." + None\<close>, the \<^verbatim>\<open>ValueError\<close> of \<^verbatim>\<open>int\<close>, and the
  exceptions of remote calls that nothing catches.
\<close>

datatype error =
    NoImportFilter string "string list"
  | PathDoesNotExist string
  | CouldNotLoad string string
  | UnknownDocumentType
  | TypeError
  | UnknownExportType string
  | NoExportFilter string "string list"
  | NoFilterFound string string
  | ValueError string
  | FileNotFoundError string
  | Propagated exn

section \<open>The filter registry\<close>

text \<open>
  \<^verbatim>\<open>get_available_import_filters\<close> and \<^verbatim>\<open>get_available_export_filters\<close>: return the
  cache when it is not \<^verbatim>\<open>None\<close>, otherwise query the catalogue, store the answer and
  return it. The \<^verbatim>\<open>while hasMoreElements()\<close> loop copies the enumeration into the list.
\<close>

definition get_available_import_filters :: "engine \<Rightarrow> world \<Rightarrow> filter_desc list \<times> world" where
  "get_available_import_filters env w =
     (case import_filters w of
        Some fs \<Rightarrow> (fs, w)
      | None \<Rightarrow>
          (let q = ''getSortedFilterList():iflags=1'';
               fs = catalog env (trace w) q
           in (fs, (log (CatalogQuery q) w)\<lparr>import_filters := Some fs\<rparr>)))"

definition get_available_export_filters :: "engine \<Rightarrow> world \<Rightarrow> filter_desc list \<times> world" where
  "get_available_export_filters env w =
     (case export_filters w of
        Some fs \<Rightarrow> (fs, w)
      | None \<Rightarrow>
          (let q = ''getSortedFilterList():iflags=2'';
               fs = catalog env (trace w) q
           in (fs, (log (CatalogQuery q) w)\<lparr>export_filters := Some fs\<rparr>)))"

text \<open>
  \<^verbatim>\<open>find_filter\<close>: the \<^verbatim>\<open>for\<close> loop with its two \<^verbatim>\<open>continue\<close> tests, then the
  method itself, which takes the list from \<^verbatim>\<open>get_available_export_filters\<close>.
\<close>

fun find_filter_loop :: "string \<Rightarrow> string \<Rightarrow> filter_desc list \<Rightarrow> string option" where
  "find_filter_loop import_type export_type [] = None"
| "find_filter_loop import_type export_type (export_filter # rest) =
     (if DocumentService export_filter \<noteq> import_type
        then find_filter_loop import_type export_type rest
      else if Type export_filter \<noteq> export_type
        then find_filter_loop import_type export_type rest
      else Some (Name export_filter))"

definition find_filter :: "engine \<Rightarrow> string \<Rightarrow> string \<Rightarrow> world \<Rightarrow> string option \<times> world" where
  "find_filter env import_type export_type w =
     (let (fs, w') = get_available_export_filters env w
      in (find_filter_loop import_type export_type fs, w'))"

text \<open>
  \<^verbatim>\<open>get_filter_names\<close>. \<open>alias_ok\<close> is the \<^verbatim>\<open>lambda\<close> given to \<^verbatim>\<open>filter\<close>;
  \<open>add_aliases\<close> is the inner loop, \<open>add_filter\<close> the body of the outer loop.
\<close>

definition alias_ok :: "string \<Rightarrow> bool" where
  "alias_ok x = (x \<noteq> [] \<and> x \<noteq> ''true'' \<and> CHR ''.'' \<notin> set x)"

fun add_aliases :: "string \<Rightarrow> string list \<Rightarrow> dict \<Rightarrow> dict" where
  "add_aliases canonical [] names = names"
| "add_aliases canonical (name # rest) names =
     add_aliases canonical rest (AList.update name canonical names)"

definition add_filter :: "dict \<Rightarrow> filter_desc \<Rightarrow> dict" where
  "add_filter names flt =
     add_aliases (Name flt) (filter alias_ok (UserData flt))
       (AList.update (Name flt) (Name flt) names)"

definition get_filter_names :: "filter_desc list \<Rightarrow> dict" where
  "get_filter_names filters = foldl add_filter [] filters"

section \<open>The document type classifier\<close>

text \<open>
  \<^verbatim>\<open>DOC_TYPES\<close> is a Python set; the list holds its elements once each.
  \<^verbatim>\<open>DOC_TYPES.intersection(names)\<close> keeps the elements of \<^verbatim>\<open>DOC_TYPES\<close> that occur in
  \<^verbatim>\<open>names\<close>, and \<^verbatim>\<open>types.pop()\<close> returns one of them: which one is the runtime's
  choice, the parameter \<open>pop\<close>.
\<close>

definition DOC_TYPES :: "string list" where
  "DOC_TYPES =
     [''com.sun.star.sheet.SpreadsheetDocument'',
      ''com.sun.star.text.TextDocument'',
      ''com.sun.star.presentation.PresentationDocument'',
      ''com.sun.star.drawing.DrawingDocument'',
      ''com.sun.star.sdb.DocumentDataSource'',
      ''com.sun.star.formula.FormulaProperties'',
      ''com.sun.star.script.BasicIDE'',
      ''com.sun.star.text.WebDocument'']"

definition get_doc_type :: "(string list \<Rightarrow> string) \<Rightarrow> document \<Rightarrow> error + string" where
  "get_doc_type pop doc =
     (let names = getSupportedServiceNames doc;
          types = filter (\<lambda>t. t \<in> set names) DOC_TYPES
      in if types \<noteq> [] then Inr (pop types) else Inl UnknownDocumentType)"

section \<open>Temporary files\<close>

text \<open>
  \<^verbatim>\<open>TempFileIfNeeded\<close> is a context manager: \<open>enter_TempFileIfNeeded\<close> is the part
  before the \<^verbatim>\<open>yield\<close> (the yielded path, and whether it is a temporary file),
  \<open>exit_TempFileIfNeeded\<close> the part after it, which \<^verbatim>\<open>NamedTemporaryFile\<close> runs on
  every exit of the block, and \<open>with_TempFileIfNeeded\<close> the \<^verbatim>\<open>with\<close> statement around
  a body. \<^verbatim>\<open>if path\<close> is false for \<^verbatim>\<open>None\<close> and for the empty string, \<^verbatim>\<open>if data\<close>
  for \<^verbatim>\<open>None\<close> and for no bytes.
\<close>

definition enter_TempFileIfNeeded ::
  "engine \<Rightarrow> string option \<Rightarrow> string \<Rightarrow> bytes option \<Rightarrow> world \<Rightarrow> string \<times> bool \<times> world" where
  "enter_TempFileIfNeeded env path suffix data w =
     (case path of
        Some p \<Rightarrow>
          if p \<noteq> [] then (p, False, w)
          else (let name = tempName env (temps w) suffix
                in (name, True,
                    w\<lparr>files := (files w)(name \<mapsto> (case data of Some d \<Rightarrow> d | None \<Rightarrow> [])),
                      temps := Suc (temps w)\<rparr>))
      | None \<Rightarrow>
          (let name = tempName env (temps w) suffix
           in (name, True,
               w\<lparr>files := (files w)(name \<mapsto> (case data of Some d \<Rightarrow> d | None \<Rightarrow> [])),
                 temps := Suc (temps w)\<rparr>)))"

definition exit_TempFileIfNeeded :: "string \<Rightarrow> bool \<Rightarrow> world \<Rightarrow> world" where
  "exit_TempFileIfNeeded name is_temp w =
     (if is_temp then w\<lparr>files := (files w)(name := None)\<rparr> else w)"

definition with_TempFileIfNeeded ::
  "engine \<Rightarrow> string option \<Rightarrow> string \<Rightarrow> bytes option \<Rightarrow>
   (string \<Rightarrow> world \<Rightarrow> 'r \<times> world) \<Rightarrow> world \<Rightarrow> 'r \<times> world" where
  "with_TempFileIfNeeded env path suffix data body w =
     (let (name, is_temp, w1) = enter_TempFileIfNeeded env path suffix data w;
          (r, w2) = body name w1
      in (r, exit_TempFileIfNeeded name is_temp w2))"

section \<open>Filter options\<close>

text \<open>
  The three-way \<^verbatim>\<open>if\<close>/\<^verbatim>\<open>elif\<close> that replaces \<^verbatim>\<open>option_value\<close>. Which strings
  \<^verbatim>\<open>str.isdecimal\<close> accepts and what \<^verbatim>\<open>int\<close> makes of them is the runtime's to say
  (the fields \<open>isdecimal\<close> and \<open>int_str\<close> of the engine); when \<^verbatim>\<open>int\<close> raises, the
  \<^verbatim>\<open>ValueError\<close> leaves the loop.
\<close>

definition coerce :: "engine \<Rightarrow> string \<Rightarrow> error + uno_value" where
  "coerce env option_value =
     (if option_value = ''false'' then Inr (VBool False)
      else if option_value = ''true'' then Inr (VBool True)
      else if isdecimal env option_value
        then (case int_str env option_value of
                Some n \<Rightarrow> Inr (VInt n)
              | None \<Rightarrow> Inl (ValueError option_value))
      else Inr (VStr option_value))"

text \<open>
  \<^verbatim>\<open>option.split("=", maxsplit=1)\<close> when \<^verbatim>\<open>"=" in option\<close>: the text before the first
  \<^verbatim>\<open>=\<close> and the text after it.
\<close>

definition split_option :: "string \<Rightarrow> string option \<times> string" where
  "split_option option =
     (if CHR ''='' \<in> set option
      then (Some (takeWhile (\<lambda>c. c \<noteq> CHR ''='') option),
            tl (dropWhile (\<lambda>c. c \<noteq> CHR ''='') option))
      else (None, option))"

text \<open>
  The loop over \<^verbatim>\<open>filter_options\<close>, with its two lists \<^verbatim>\<open>export_filter_data\<close> and
  \<^verbatim>\<open>export_filter_options\<close> as accumulators.
\<close>

fun parse_filter_options ::
  "engine \<Rightarrow> string list \<Rightarrow> PropertyValue list \<Rightarrow> PropertyValue list \<Rightarrow>
   error + PropertyValue list \<times> PropertyValue list" where
  "parse_filter_options env [] export_filter_data export_filter_options =
     Inr (export_filter_data, export_filter_options)"
| "parse_filter_options env (option # rest) export_filter_data export_filter_options =
     (let (option_name, option_value) = split_option option
      in case coerce env option_value of
           Inl e \<Rightarrow> Inl e
         | Inr v \<Rightarrow>
             (case option_name of
                Some n \<Rightarrow>
                  parse_filter_options env rest (export_filter_data @ [(n, v)])
                    export_filter_options
              | None \<Rightarrow>
                  parse_filter_options env rest export_filter_data
                    (export_filter_options @ [(''FilterOptions'', v)])))"

section \<open>\<^verbatim>\<open>UnoConverter.convert\<close>\<close>

text \<open>The keyword arguments of \<^verbatim>\<open>convert\<close>.\<close>

record convert_args =
  inpath :: "string option"
  indata :: "bytes option"
  outpath :: "string option"
  convert_to :: "string option"
  filtername :: "string option"
  filter_options :: "string list"
  update_index :: bool
  infiltername :: "string option"

text \<open>
  Lines 199 to 209: the load properties. \<^verbatim>\<open>if infiltername\<close> is false for \<^verbatim>\<open>None\<close>
  and for the empty string.
\<close>

definition input_props ::
  "engine \<Rightarrow> string option \<Rightarrow> world \<Rightarrow> (error + PropertyValue list) \<times> world" where
  "input_props env infilter w =
     (let props = [(''ReadOnly'', VBool True)]
      in case infilter of
           None \<Rightarrow> (Inr props, w)
         | Some n \<Rightarrow>
             if n = [] then (Inr props, w)
             else
               (let (fs, w1) = get_available_import_filters env w;
                    infilters = get_filter_names fs
                in case map_of infilters n of
                     Some canonical \<Rightarrow> (Inr (props @ [(''FilterName'', VStr canonical)]), w1)
                   | None \<Rightarrow> (Inl (NoImportFilter n (sort (map fst infilters))), w1)))"

text \<open>
  Lines 238 to 253: the index loop. \<open>update_indexes\<close> is the inner \<^verbatim>\<open>for i\<close> loop of
  the \<^verbatim>\<open>else\<close> clause, where nothing is caught; \<open>refresh_pass\<close> is one pass of the
  \<^verbatim>\<open>try\<close> statement, whose \<^verbatim>\<open>except AttributeError\<close> leaves the loop; \<open>refresh_loop\<close>
  runs the passes of \<^verbatim>\<open>range(2)\<close>, \<open>refresh_indexes\<close> is the whole
  \<^verbatim>\<open>if update_index\<close> statement. The result is the exception that leaves the loop
  uncaught, if any.
\<close>

fun update_indexes :: "exn option list \<Rightarrow> nat \<Rightarrow> world \<Rightarrow> exn option \<times> world" where
  "update_indexes [] i w = (None, w)"
| "update_indexes (u # us) i w =
     (case u of
        Some e \<Rightarrow> (Some e, log (IndexUpdate i) w)
      | None \<Rightarrow> update_indexes us (Suc i) (log (IndexUpdate i) w))"

datatype pass = Continue | Break | Raise exn

definition refresh_pass :: "document \<Rightarrow> nat \<Rightarrow> world \<Rightarrow> pass \<times> world" where
  "refresh_pass doc ii w =
     (let w1 = log Refresh w
      in case refresh doc ii of
           Some AttributeError \<Rightarrow> (Break, w1)
         | Some (UnoException m) \<Rightarrow> (Raise (UnoException m), w1)
         | None \<Rightarrow>
             (let w2 = log GetDocumentIndexes w1
              in case getDocumentIndexes doc ii of
                   Inl AttributeError \<Rightarrow> (Break, w2)
                 | Inl (UnoException m) \<Rightarrow> (Raise (UnoException m), w2)
                 | Inr indexes \<Rightarrow>
                     (case update_indexes indexes 0 w2 of
                        (Some e, w3) \<Rightarrow> (Raise e, w3)
                      | (None, w3) \<Rightarrow> (Continue, w3))))"

fun refresh_loop :: "document \<Rightarrow> nat list \<Rightarrow> world \<Rightarrow> exn option \<times> world" where
  "refresh_loop doc [] w = (None, w)"
| "refresh_loop doc (ii # iis) w =
     (case refresh_pass doc ii w of
        (Break, w1) \<Rightarrow> (None, w1)
      | (Raise e, w1) \<Rightarrow> (Some e, w1)
      | (Continue, w1) \<Rightarrow> refresh_loop doc iis w1)"

definition refresh_indexes :: "bool \<Rightarrow> document \<Rightarrow> world \<Rightarrow> exn option \<times> world" where
  "refresh_indexes update doc w = (if update then refresh_loop doc [0, 1] w else (None, w))"

text \<open>
  Lines 277 to 291: the export filter. A name given by the caller is checked against
  the alias table and used as it is; without one, \<^verbatim>\<open>find_filter\<close> decides.
\<close>

definition select_filter ::
  "engine \<Rightarrow> string option \<Rightarrow> string \<Rightarrow> string \<Rightarrow> world \<Rightarrow> (error + string) \<times> world" where
  "select_filter env fname import_type export_type w =
     (case fname of
        Some n \<Rightarrow>
          (let (fs, w1) = get_available_export_filters env w;
               available_filter_names = get_filter_names fs
           in if map_of available_filter_names n = None
              then (Inl (NoExportFilter n (sort (map fst available_filter_names))), w1)
              else (Inr n, w1))
      | None \<Rightarrow>
          (case find_filter env import_type export_type w of
             (None, w1) \<Rightarrow> (Inl (NoFilterFound import_type export_type), w1)
           | (Some n, w1) \<Rightarrow> (Inr n, w1)))"

text \<open>
  Lines 262 to 346: the body of the inner \<^verbatim>\<open>with\<close> block. A \<^verbatim>\<open>storeToURL\<close> that
  returns has written the file at \<^verbatim>\<open>output_path\<close>; \<^verbatim>\<open>open(output_path, "rb")\<close> reads
  it back when \<^verbatim>\<open>outpath is None\<close>; otherwise the function falls off its end and
  returns \<^verbatim>\<open>None\<close>.
\<close>

definition store_document ::
  "engine \<Rightarrow> convert_args \<Rightarrow> document \<Rightarrow> string \<Rightarrow> string \<Rightarrow> string \<Rightarrow> world \<Rightarrow>
   (error + bytes option) \<times> world" where
  "store_document env a doc import_type ext output_path w =
     (let export_url = fileUrl env output_path;
          w1 = log (QueryTypeByURL export_url) w;
          export_type = queryTypeByURL env export_url
      in if export_type = []
         then (Inl (UnknownExportType (if ext \<noteq> [] then ext else splitext env output_path)), w1)
         else
           (case select_filter env (filtername a) import_type export_type w1 of
              (Inl e, w2) \<Rightarrow> (Inl e, w2)
            | (Inr fname, w2) \<Rightarrow>
                (case parse_filter_options env (filter_options a) [] [] of
                   Inl e \<Rightarrow> (Inl e, w2)
                 | Inr (export_filter_data, export_filter_options) \<Rightarrow>
                     (let output_props =
                            [(''FilterName'', VStr fname), (''Overwrite'', VBool True)]
                            @ (if export_filter_data \<noteq> []
                               then [(''FilterData'', VSeq export_filter_data)] else [])
                            @ export_filter_options;
                          w3 = log (StoreToURL export_url output_props) w2
                      in case storeToURL doc export_url output_props of
                           Inl e \<Rightarrow> (Inl (Propagated e), w3)
                         | Inr content \<Rightarrow>
                             (let w4 = w3\<lparr>files := (files w3)(output_path \<mapsto> content)\<rparr>
                              in if outpath a = None
                                 then (case files w4 output_path of
                                         Some b \<Rightarrow> (Inr (Some b), w4)
                                       | None \<Rightarrow> (Inl (FileNotFoundError output_path), w4))
                                 else (Inr None, w4))))))"

text \<open>
  Lines 257 to 260: the body of the \<^verbatim>\<open>try\<close> statement. The argument
  \<^verbatim>\<open>"." + convert_to\<close> is evaluated before \<^verbatim>\<open>TempFileIfNeeded\<close> is called, and
  raises \<^verbatim>\<open>TypeError\<close> when \<^verbatim>\<open>convert_to\<close> is \<^verbatim>\<open>None\<close>.
\<close>

definition export_document ::
  "engine \<Rightarrow> convert_args \<Rightarrow> document \<Rightarrow> world \<Rightarrow> (error + bytes option) \<times> world" where
  "export_document env a doc w =
     (case get_doc_type (set_pop env) doc of
        Inl e \<Rightarrow> (Inl e, w)
      | Inr import_type \<Rightarrow>
          (case convert_to a of
             None \<Rightarrow> (Inl TypeError, w)
           | Some ext \<Rightarrow>
               with_TempFileIfNeeded env (outpath a) (CHR ''.'' # ext) None
                 (store_document env a doc import_type ext) w))"

text \<open>
  Lines 214 to 349: the body of the outer \<^verbatim>\<open>with\<close> block. The index loop stands
  before the \<^verbatim>\<open>try\<close> statement; \<^verbatim>\<open>document.close(True)\<close> is its \<^verbatim>\<open>finally\<close> clause.
\<close>

definition load_and_export ::
  "engine \<Rightarrow> convert_args \<Rightarrow> PropertyValue list \<Rightarrow> string \<Rightarrow> world \<Rightarrow>
   (error + bytes option) \<times> world" where
  "load_and_export env a props input_path w =
     (if files w input_path = None then (Inl (PathDoesNotExist input_path), w)
      else
        (let import_path = fileUrl env input_path;
             w1 = log (LoadComponentFromURL import_path props) w
         in case loadComponentFromURL env import_path props of
              Inl e \<Rightarrow> (Inl (Propagated e), w1)
            | Inr None \<Rightarrow>
                (Inl (CouldNotLoad
                        (case inpath a of None \<Rightarrow> ''<remote file>''
                         | Some p \<Rightarrow> if p = [] then ''<remote file>'' else p)
                        (case infiltername a of None \<Rightarrow> ''default''
                         | Some n \<Rightarrow> if n = [] then ''default'' else n)), w1)
            | Inr (Some doc) \<Rightarrow>
                (case refresh_indexes (update_index a) doc w1 of
                   (Some e, w2) \<Rightarrow> (Inl (Propagated e), w2)
                 | (None, w2) \<Rightarrow>
                     (let (r, w3) = export_document env a doc w2
                      in (r, log CloseDocument w3)))))"

definition convert :: "engine \<Rightarrow> convert_args \<Rightarrow> world \<Rightarrow> (error + bytes option) \<times> world" where
  "convert env a w =
     (case input_props env (infiltername a) w of
        (Inl e, w1) \<Rightarrow> (Inl e, w1)
      | (Inr props, w1) \<Rightarrow>
          with_TempFileIfNeeded env (inpath a) [] (indata a) (load_and_export env a props) w1)"

section \<open>Example inputs\<close>

text \<open>
  Concrete filters, engines and documents on which the theorems below are run. The
  catalogue of \<open>demo_engine\<close> answers its very first query with two filters and every
  later query with none, so a second query would be visible in the result.
\<close>

definition writer8 :: filter_desc where
  "writer8 =
     \<lparr>Name = ''writer8'', DocumentService = ''com.sun.star.text.TextDocument'',
      Type = ''writer8'',
      UserData = [''odt'', ''true'', '''', ''com.sun.star.comp.Writer.XMLOasisExporter'']\<rparr>"

definition pdf_filter :: filter_desc where
  "pdf_filter =
     \<lparr>Name = ''writer_pdf_Export'', DocumentService = ''com.sun.star.text.TextDocument'',
      Type = ''pdf_Portable_Document_Format'', UserData = [''pdf'']\<rparr>"

definition odd_filter :: filter_desc where
  "odd_filter =
     \<lparr>Name = ''true'', DocumentService = ''com.sun.star.text.TextDocument'',
      Type = ''odd'', UserData = [''a/b'']\<rparr>"

definition shadowing_filter :: filter_desc where
  "shadowing_filter =
     \<lparr>Name = ''writer8_template'', DocumentService = ''com.sun.star.text.TextDocument'',
      Type = ''writer8_template'', UserData = [''writer8'']\<rparr>"

definition text_doc :: document where
  "text_doc =
     \<lparr>getSupportedServiceNames =
        [''com.sun.star.document.OfficeDocument'', ''com.sun.star.text.GenericTextDocument'',
         ''com.sun.star.text.TextDocument''],
      refresh = (\<lambda>ii. None),
      getDocumentIndexes = (\<lambda>ii. Inr [None]),
      storeToURL = (\<lambda>url props. Inr ''%PDF-1.6'')\<rparr>"

definition chart_doc :: document where
  "chart_doc = text_doc\<lparr>getSupportedServiceNames := [''com.sun.star.chart2.ChartDocument'']\<rparr>"

text \<open>
  A runtime for the examples: \<open>ascii_isdecimal\<close> and \<open>decimal_value\<close> read the ASCII
  digits, and \<^verbatim>\<open>int\<close> refuses more than 4300 digits, the default limit of CPython.
  \<open>unicode_engine\<close> also reads ARABIC-INDIC DIGIT THREE (U+0663, the bytes D9 A3).
\<close>

definition ascii_isdecimal :: "string \<Rightarrow> bool" where
  "ascii_isdecimal s = (s \<noteq> [] \<and> list_all (\<lambda>c. c \<in> set ''0123456789'') s)"

definition decimal_value :: "string \<Rightarrow> int" where
  "decimal_value s = foldl (\<lambda>n c. 10 * n + (int (of_char c) - 48)) 0 s"

definition demo_engine :: engine where
  "demo_engine =
     \<lparr>catalog = (\<lambda>tr q.
        if CatalogQuery q \<in> set tr then []
        else if q = ''getSortedFilterList():iflags=1'' then [writer8]
        else [writer8, pdf_filter]),
      loadComponentFromURL = (\<lambda>url props.
        if url = ''file:///in.odt'' then Inr (Some text_doc) else Inr None),
      queryTypeByURL = (\<lambda>url.
        if url = ''file:///out.pdf'' \<or> url = ''file:///tmp/tmp.pdf''
        then ''pdf_Portable_Document_Format'' else []),
      fileUrl = (\<lambda>p. ''file://'' @ p),
      tempName = (\<lambda>n suffix. ''/tmp/tmp'' @ replicate n CHR ''x'' @ suffix),
      splitext = (\<lambda>p. dropWhile (\<lambda>c. c \<noteq> CHR ''.'') p),
      set_pop = hd,
      isdecimal = ascii_isdecimal,
      int_str = (\<lambda>s. if 4300 < length s then None else Some (decimal_value s))\<rparr>"


definition fresh :: world where
  "fresh =
     \<lparr>import_filters = None, export_filters = None,
      files = [''/in.odt'' \<mapsto> ''PK''], temps = 0, trace = []\<rparr>"

definition broken_doc :: document where
  "broken_doc =
     text_doc\<lparr>getDocumentIndexes :=
       (\<lambda>ii. Inr [Some (UnoException ''com.sun.star.uno.RuntimeException'')])\<rparr>"

definition broken_engine :: engine where
  "broken_engine = demo_engine\<lparr>loadComponentFromURL := (\<lambda>url props. Inr (Some broken_doc))\<rparr>"

definition demo_args :: convert_args where
  "demo_args =
     \<lparr>inpath = Some ''/in.odt'', indata = None, outpath = None, convert_to = Some ''pdf'',
      filtername = None, filter_options = [], update_index = True, infiltername = None\<rparr>"

text \<open>
  The export alias table \<^verbatim>\<open>convert\<close> builds in world \<open>w\<close>: from the cache when it is
  populated, otherwise from the catalogue's answer after the remote calls \<open>tr\<close>.
\<close>

definition export_table :: "engine \<Rightarrow> world \<Rightarrow> event list \<Rightarrow> dict" where
  "export_table env w tr =
     get_filter_names
       (case export_filters w of
          Some fs \<Rightarrow> fs
        | None \<Rightarrow> catalog env tr ''getSortedFilterList():iflags=2'')"

text \<open>
  \<open>no_close w w'\<close>: the remote calls made between the worlds \<open>w\<close> and \<open>w'\<close> do not
  include \<^verbatim>\<open>document.close\<close>.
\<close>

definition no_close :: "world \<Rightarrow> world \<Rightarrow> bool" where
  "no_close w w' = (\<exists>evs. trace w' = trace w @ evs \<and> CloseDocument \<notin> set evs)"

section \<open>The filter registry: lookups and caches\<close>

lemma find_filter_loop_find:
  "find_filter_loop it et fs =
     map_option Name (List.find (\<lambda>f. DocumentService f = it \<and> Type f = et) fs)"
  by (induction fs) auto

lemma find_filter_loop_None:
  "find_filter_loop it et fs = None \<longleftrightarrow>
     (\<forall>f \<in> set fs. \<not> (DocumentService f = it \<and> Type f = et))"
  by (auto simp: find_filter_loop_find find_None_iff)

lemma find_filter_loop_Some:
  "find_filter_loop it et fs = Some n \<longleftrightarrow>
     (\<exists>i < length fs. DocumentService (fs ! i) = it \<and> Type (fs ! i) = et \<and>
        n = Name (fs ! i) \<and>
        (\<forall>j < i. \<not> (DocumentService (fs ! j) = it \<and> Type (fs ! j) = et)))"
  unfolding find_filter_loop_find map_option_eq_Some find_Some_iff
  by blast

lemma get_available_export_filters_cached:
  "export_filters w = Some c \<Longrightarrow> get_available_export_filters env w = (c, w)"
  by (simp add: get_available_export_filters_def)

lemma get_available_import_filters_cached:
  "import_filters w = Some c \<Longrightarrow> get_available_import_filters env w = (c, w)"
  by (simp add: get_available_import_filters_def)

text \<open>
  C5. With \<open>fs\<close> the list \<^verbatim>\<open>get_available_export_filters\<close> returns (the cache, when it
  is populated), \<^verbatim>\<open>find_filter\<close> returns \<^verbatim>\<open>None\<close> exactly when no filter of \<open>fs\<close>
  has both the given \<^verbatim>\<open>DocumentService\<close> and the given \<^verbatim>\<open>Type\<close>, and returns a name
  exactly when it is the \<^verbatim>\<open>Name\<close> of the first filter of \<open>fs\<close> that has both.
\<close>

theorem find_filter_first_match:
  assumes "get_available_export_filters env w = (fs, w')"
  shows "(fst (find_filter env import_type export_type w) = None \<longleftrightarrow>
            (\<forall>f \<in> set fs. \<not> (DocumentService f = import_type \<and> Type f = export_type))) \<and>
         (\<forall>n. fst (find_filter env import_type export_type w) = Some n \<longleftrightarrow>
            (\<exists>i < length fs.
               DocumentService (fs ! i) = import_type \<and> Type (fs ! i) = export_type \<and>
               n = Name (fs ! i) \<and>
               (\<forall>j < i. \<not> (DocumentService (fs ! j) = import_type \<and>
                               Type (fs ! j) = export_type)))) \<and>
         (\<forall>c. export_filters w = Some c \<longrightarrow> fs = c)"
proof -
  have r: "fst (find_filter env import_type export_type w) =
             find_filter_loop import_type export_type fs"
    using assms by (simp add: find_filter_def)
  have cached: "\<forall>c. export_filters w = Some c \<longrightarrow> fs = c"
    using assms by (auto simp: get_available_export_filters_cached)
  show ?thesis
    unfolding r using find_filter_loop_None find_filter_loop_Some cached by blast
qed

theorem find_filter_first_match_witness:
  "get_available_export_filters demo_engine
     (fresh\<lparr>export_filters := Some [writer8, pdf_filter, pdf_filter\<lparr>Name := ''second''\<rparr>]\<rparr>)
     = ([writer8, pdf_filter, pdf_filter\<lparr>Name := ''second''\<rparr>],
        fresh\<lparr>export_filters := Some [writer8, pdf_filter, pdf_filter\<lparr>Name := ''second''\<rparr>]\<rparr>) \<and>
   fst (find_filter demo_engine ''com.sun.star.text.TextDocument'' ''pdf_Portable_Document_Format''
          (fresh\<lparr>export_filters := Some [writer8, pdf_filter, pdf_filter\<lparr>Name := ''second''\<rparr>]\<rparr>))
     = Some ''writer_pdf_Export'' \<and>
   fst (find_filter demo_engine ''com.sun.star.sheet.SpreadsheetDocument''
          ''pdf_Portable_Document_Format''
          (fresh\<lparr>export_filters := Some [writer8, pdf_filter, pdf_filter\<lparr>Name := ''second''\<rparr>]\<rparr>))
     = None"
proof -
  let ?fs = "[writer8, pdf_filter, pdf_filter\<lparr>Name := ''second''\<rparr>]"
  let ?w = "fresh\<lparr>export_filters := Some ?fs\<rparr>"
  have h: "get_available_export_filters demo_engine ?w = (?fs, ?w)"
    by (simp add: get_available_export_filters_def fresh_def)
  have "\<exists>i < length ?fs. DocumentService (?fs ! i) = ''com.sun.star.text.TextDocument'' \<and>
          Type (?fs ! i) = ''pdf_Portable_Document_Format'' \<and>
          ''writer_pdf_Export'' = Name (?fs ! i) \<and>
          (\<forall>j < i. \<not> (DocumentService (?fs ! j) = ''com.sun.star.text.TextDocument'' \<and>
                        Type (?fs ! j) = ''pdf_Portable_Document_Format''))"
    by (rule exI [of _ 1]) (simp add: pdf_filter_def writer8_def)
  with find_filter_first_match
    [OF h, of "''com.sun.star.text.TextDocument''" "''pdf_Portable_Document_Format''"]
  have hit: "fst (find_filter demo_engine ''com.sun.star.text.TextDocument''
                ''pdf_Portable_Document_Format'' ?w) = Some ''writer_pdf_Export''"
    by blast
  have "\<forall>f \<in> set ?fs. \<not> (DocumentService f = ''com.sun.star.sheet.SpreadsheetDocument'' \<and>
          Type f = ''pdf_Portable_Document_Format'')"
    by (simp add: pdf_filter_def writer8_def)
  with find_filter_first_match
    [OF h, of "''com.sun.star.sheet.SpreadsheetDocument''" "''pdf_Portable_Document_Format''"]
  have miss: "fst (find_filter demo_engine ''com.sun.star.sheet.SpreadsheetDocument''
                 ''pdf_Portable_Document_Format'' ?w) = None"
    by blast
  from h hit miss show ?thesis by blast
qed

text \<open>
  C6. A call of \<^verbatim>\<open>get_available_import_filters\<close> leaves the cache holding the list it
  returns; a second call returns the same list and changes nothing, so it makes no
  query; the first call makes one query when the cache was \<^verbatim>\<open>None\<close> and none
  otherwise; the cache of the other direction is not touched. The same holds for
  \<^verbatim>\<open>get_available_export_filters\<close>. A populated cache is returned as it is, with no
  query.
\<close>

theorem filter_caches_queried_once:
  "(case get_available_import_filters env w of
      (a, w1) \<Rightarrow>
        get_available_import_filters env w1 = (a, w1) \<and>
        import_filters w1 = Some a \<and>
        export_filters w1 = export_filters w \<and>
        trace w1 = trace w @
          (if import_filters w = None then [CatalogQuery ''getSortedFilterList():iflags=1'']
           else [])) \<and>
   (case get_available_export_filters env w of
      (b, w1) \<Rightarrow>
        get_available_export_filters env w1 = (b, w1) \<and>
        export_filters w1 = Some b \<and>
        import_filters w1 = import_filters w \<and>
        trace w1 = trace w @
          (if export_filters w = None then [CatalogQuery ''getSortedFilterList():iflags=2'']
           else [])) \<and>
   (\<forall>fs. import_filters w = Some fs \<longrightarrow> get_available_import_filters env w = (fs, w)) \<and>
   (\<forall>fs. export_filters w = Some fs \<longrightarrow> get_available_export_filters env w = (fs, w))"
  by (cases "import_filters w"; cases "export_filters w")
    (simp_all add: get_available_import_filters_def get_available_export_filters_def
      log_def Let_def)

theorem filter_caches_queried_once_witness:
  "get_available_import_filters demo_engine fresh
     = ([writer8],
        fresh\<lparr>import_filters := Some [writer8],
              trace := [CatalogQuery ''getSortedFilterList():iflags=1'']\<rparr>) \<and>
   catalog demo_engine [CatalogQuery ''getSortedFilterList():iflags=1'']
     ''getSortedFilterList():iflags=1'' = [] \<and>
   get_available_import_filters demo_engine
     (fresh\<lparr>import_filters := Some [writer8],
           trace := [CatalogQuery ''getSortedFilterList():iflags=1'']\<rparr>)
     = ([writer8],
        fresh\<lparr>import_filters := Some [writer8],
              trace := [CatalogQuery ''getSortedFilterList():iflags=1'']\<rparr>)"
proof -
  let ?w1 = "fresh\<lparr>import_filters := Some [writer8],
                   trace := [CatalogQuery ''getSortedFilterList():iflags=1'']\<rparr>"
  have first: "get_available_import_filters demo_engine fresh = ([writer8], ?w1)"
    by (simp add: get_available_import_filters_def demo_engine_def fresh_def log_def Let_def)
  have again: "catalog demo_engine [CatalogQuery ''getSortedFilterList():iflags=1'']
                 ''getSortedFilterList():iflags=1'' = []"
    by (simp add: demo_engine_def)
  from filter_caches_queried_once [of demo_engine fresh]
  have second: "get_available_import_filters demo_engine ?w1 = ([writer8], ?w1)"
    unfolding first by simp
  from first again second show ?thesis by (intro conjI)
qed

section \<open>The alias table\<close>

lemma map_of_add_aliases:
  "map_of (add_aliases c ns names) k = (if k \<in> set ns then Some c else map_of names k)"
  by (induction ns arbitrary: names) (auto simp: update_conv')

lemma map_of_add_filter:
  "map_of (add_filter names f) k =
     (if k = Name f \<or> (k \<in> set (UserData f) \<and> alias_ok k) then Some (Name f)
      else map_of names k)"
  by (auto simp: add_filter_def map_of_add_aliases update_conv')

text \<open>
  After any number of filters, the value at a key is the one the table had before, or
  the name of a filter that assigns that key.
\<close>

lemma map_of_foldl_add_filter_cases:
  "map_of (foldl add_filter names fs) k = map_of names k \<or>
   (\<exists>g \<in> set fs. map_of (foldl add_filter names fs) k = Some (Name g) \<and>
      (k = Name g \<or> (k \<in> set (UserData g) \<and> alias_ok k)))"
proof (induction fs arbitrary: names)
  case Nil
  then show ?case by simp
next
  case (Cons f fs)
  from Cons.IH [of "add_filter names f"] show ?case
    by (auto simp: map_of_add_filter split: if_splits)
qed

lemma foldl_add_filter_keeps_keys:
  "map_of names k \<noteq> None \<Longrightarrow> map_of (foldl add_filter names fs) k \<noteq> None"
  by (induction fs arbitrary: names) (auto simp: map_of_add_filter)

lemma foldl_add_filter_adds_keys:
  "g \<in> set fs \<Longrightarrow> k = Name g \<or> (k \<in> set (UserData g) \<and> alias_ok k) \<Longrightarrow>
   map_of (foldl add_filter names fs) k \<noteq> None"
proof (induction fs arbitrary: names)
  case Nil
  then show ?case by simp
next
  case (Cons f fs)
  show ?case
  proof (cases "g = f")
    case True
    with Cons.prems have "map_of (add_filter names f) k \<noteq> None"
      by (auto simp: map_of_add_filter)
    then show ?thesis by (simp add: foldl_add_filter_keeps_keys)
  next
    case False
    with Cons show ?thesis by simp
  qed
qed

text \<open>
  C3, as the code has it. The keys of the table \<^verbatim>\<open>get_filter_names\<close> builds are the
  canonical names of the filters, whatever their shape, and the \<^verbatim>\<open>UserData\<close> entries
  that are not empty, are not \<^verbatim>\<open>"true"\<close> and contain no dot. The test of the code is
  for a dot, not for a path separator, and it is applied to \<^verbatim>\<open>UserData\<close> entries only.
\<close>

theorem get_filter_names_keys:
  "map_of (get_filter_names filters) k \<noteq> None \<longleftrightarrow>
     (\<exists>flt \<in> set filters. k = Name flt \<or>
        (k \<in> set (UserData flt) \<and> k \<noteq> [] \<and> k \<noteq> ''true'' \<and> CHR ''.'' \<notin> set k))"
proof
  assume "map_of (get_filter_names filters) k \<noteq> None"
  with map_of_foldl_add_filter_cases [of "[]" filters k]
  show "\<exists>flt \<in> set filters. k = Name flt \<or>
          (k \<in> set (UserData flt) \<and> k \<noteq> [] \<and> k \<noteq> ''true'' \<and> CHR ''.'' \<notin> set k)"
    by (auto simp: get_filter_names_def alias_ok_def)
next
  assume "\<exists>flt \<in> set filters. k = Name flt \<or>
            (k \<in> set (UserData flt) \<and> k \<noteq> [] \<and> k \<noteq> ''true'' \<and> CHR ''.'' \<notin> set k)"
  then obtain flt where "flt \<in> set filters"
    and "k = Name flt \<or> (k \<in> set (UserData flt) \<and> alias_ok k)"
    by (auto simp: alias_ok_def)
  then show "map_of (get_filter_names filters) k \<noteq> None"
    unfolding get_filter_names_def by (rule foldl_add_filter_adds_keys)
qed

theorem get_filter_names_keys_witness:
  "map_of (get_filter_names [writer8]) ''odt'' \<noteq> None \<and>
   map_of (get_filter_names [writer8]) ''writer8'' \<noteq> None \<and>
   map_of (get_filter_names [writer8]) ''true'' = None \<and>
   map_of (get_filter_names [writer8]) '''' = None \<and>
   map_of (get_filter_names [writer8]) ''com.sun.star.comp.Writer.XMLOasisExporter'' = None"
  using get_filter_names_keys [of "[writer8]" "''odt''"]
    get_filter_names_keys [of "[writer8]" "''writer8''"]
    get_filter_names_keys [of "[writer8]" "''true''"]
    get_filter_names_keys [of "[writer8]" "[]"]
    get_filter_names_keys [of "[writer8]" "''com.sun.star.comp.Writer.XMLOasisExporter''"]
  by (simp add: writer8_def)

text \<open>
  C3 as stated fails: a filter whose canonical name is \<^verbatim>\<open>"true"\<close> puts the key
  \<^verbatim>\<open>"true"\<close> into the table, and its alias \<^verbatim>\<open>"a/b"\<close>, which contains a path separator
  and no dot, becomes a key as well.
\<close>

theorem get_filter_names_keys_counterexample:
  "map_of (get_filter_names [odd_filter]) ''true'' = Some ''true'' \<and>
   map_of (get_filter_names [odd_filter]) ''a/b'' = Some ''true'' \<and>
   CHR ''/'' \<in> set ''a/b''"
  by (simp add: get_filter_names_def add_filter_def alias_ok_def odd_filter_def)

text \<open>
  C10, as the code has it. The canonical name of every filter of the sequence is a key
  of the table, with no test on its shape. It maps to itself unless a filter later in
  the sequence, with another name, has that string among its accepted \<^verbatim>\<open>UserData\<close>
  entries: the later assignment then replaces the value.
\<close>

theorem get_filter_names_canonical:
  assumes "filters = before @ flt # later"
  shows "map_of (get_filter_names filters) (Name flt) \<noteq> None \<and>
         ((\<forall>g \<in> set later. Name flt \<in> set (UserData g) \<and> alias_ok (Name flt) \<longrightarrow>
              Name g = Name flt) \<longrightarrow>
          map_of (get_filter_names filters) (Name flt) = Some (Name flt))"
proof -
  let ?names = "add_filter (foldl add_filter [] before) flt"
  have split: "get_filter_names filters = foldl add_filter ?names later"
    using assms by (simp add: get_filter_names_def)
  have here: "map_of ?names (Name flt) = Some (Name flt)"
    by (simp add: map_of_add_filter)
  have key: "map_of (get_filter_names filters) (Name flt) \<noteq> None"
    unfolding split using here by (simp add: foldl_add_filter_keeps_keys)
  have val: "map_of (get_filter_names filters) (Name flt) = Some (Name flt)"
    if later: "\<forall>g \<in> set later. Name flt \<in> set (UserData g) \<and> alias_ok (Name flt) \<longrightarrow>
                 Name g = Name flt"
  proof -
    from map_of_foldl_add_filter_cases [of ?names later "Name flt"]
    consider "map_of (foldl add_filter ?names later) (Name flt) = map_of ?names (Name flt)"
      | g where "g \<in> set later"
          "map_of (foldl add_filter ?names later) (Name flt) = Some (Name g)"
          "Name flt = Name g \<or> (Name flt \<in> set (UserData g) \<and> alias_ok (Name flt))"
      by blast
    then show ?thesis
    proof cases
      case 1
      then show ?thesis by (simp only: split here)
    next
      case 2
      from later 2(1)
      have "Name flt \<in> set (UserData g) \<and> alias_ok (Name flt) \<longrightarrow> Name g = Name flt"
        by (rule bspec)
      with 2(3) have "Name g = Name flt" by (elim disjE) simp_all
      with 2(2) show ?thesis by (simp only: split)
    qed
  qed
  from key val show ?thesis by blast
qed

theorem get_filter_names_canonical_witness:
  "[shadowing_filter, writer8, pdf_filter] = [shadowing_filter] @ writer8 # [pdf_filter] \<and>
   map_of (get_filter_names [shadowing_filter, writer8, pdf_filter]) (Name writer8)
     = Some (Name writer8)"
  using get_filter_names_canonical
    [of "[shadowing_filter, writer8, pdf_filter]" "[shadowing_filter]" writer8 "[pdf_filter]"]
  by (simp add: writer8_def pdf_filter_def)

text \<open>
  C10 as stated fails: \<^verbatim>\<open>writer8\<close> is a canonical name, and a later filter that lists
  \<^verbatim>\<open>"writer8"\<close> in its \<^verbatim>\<open>UserData\<close> makes the table map it to that filter's name.
\<close>

theorem get_filter_names_canonical_counterexample:
  "map_of (get_filter_names [writer8, shadowing_filter]) (Name writer8)
     = Some ''writer8_template'' \<and>
   Name writer8 \<noteq> ''writer8_template''"
  by (simp add: get_filter_names_def add_filter_def alias_ok_def writer8_def
      shadowing_filter_def)

section \<open>Classifying a document\<close>

text \<open>
  C9. Whatever element \<^verbatim>\<open>set.pop\<close> picks from a non-empty set, \<^verbatim>\<open>get_doc_type\<close>
  returns a service name that is both in \<^verbatim>\<open>DOC_TYPES\<close> and among the document's
  supported service names when there is one, and raises the unknown-document-type error
  when there is none.
\<close>

theorem get_doc_type_classifies:
  assumes "\<forall>xs. xs \<noteq> [] \<longrightarrow> pop xs \<in> set xs"
  shows "(set DOC_TYPES \<inter> set (getSupportedServiceNames doc) \<noteq> {} \<longrightarrow>
            (\<exists>t. get_doc_type pop doc = Inr t \<and>
                 t \<in> set DOC_TYPES \<inter> set (getSupportedServiceNames doc))) \<and>
         (set DOC_TYPES \<inter> set (getSupportedServiceNames doc) = {} \<longrightarrow>
            get_doc_type pop doc = Inl UnknownDocumentType)"
proof -
  let ?types = "filter (\<lambda>t. t \<in> set (getSupportedServiceNames doc)) DOC_TYPES"
  have types: "set ?types = set DOC_TYPES \<inter> set (getSupportedServiceNames doc)"
    by auto
  show ?thesis
  proof (cases "?types = []")
    case True
    with types have "set DOC_TYPES \<inter> set (getSupportedServiceNames doc) = {}"
      by simp
    moreover from True have "get_doc_type pop doc = Inl UnknownDocumentType"
      by (simp add: get_doc_type_def)
    ultimately show ?thesis by simp
  next
    case False
    with assms have "pop ?types \<in> set ?types" by blast
    with types have "pop ?types \<in> set DOC_TYPES \<inter> set (getSupportedServiceNames doc)"
      by simp
    moreover from False have "get_doc_type pop doc = Inr (pop ?types)"
      by (simp add: get_doc_type_def)
    ultimately show ?thesis by auto
  qed
qed

theorem get_doc_type_classifies_witness:
  "get_doc_type hd text_doc = Inr ''com.sun.star.text.TextDocument'' \<and>
   get_doc_type hd chart_doc = Inl UnknownDocumentType"
proof -
  have pop: "\<forall>xs :: string list. xs \<noteq> [] \<longrightarrow> hd xs \<in> set xs"
    by simp
  have "set DOC_TYPES \<inter> set (getSupportedServiceNames chart_doc) = {}"
    by (simp add: DOC_TYPES_def chart_doc_def text_doc_def)
  with get_doc_type_classifies [OF pop, of chart_doc]
  have none: "get_doc_type hd chart_doc = Inl UnknownDocumentType"
    by blast
  have "set DOC_TYPES \<inter> set (getSupportedServiceNames text_doc) = {''com.sun.star.text.TextDocument''}"
    by (auto simp: DOC_TYPES_def text_doc_def)
  with get_doc_type_classifies [OF pop, of text_doc]
  have one: "get_doc_type hd text_doc = Inr ''com.sun.star.text.TextDocument''"
    by auto
  from one none show ?thesis by (intro conjI)
qed

section \<open>Parsing the filter options\<close>

lemma split_at_first_equals:
  "CHR ''='' \<in> set s \<Longrightarrow>
   s = takeWhile (\<lambda>c. c \<noteq> CHR ''='') s @ CHR ''='' # tl (dropWhile (\<lambda>c. c \<noteq> CHR ''='') s) \<and>
   CHR ''='' \<notin> set (takeWhile (\<lambda>c. c \<noteq> CHR ''='') s)"
proof -
  assume eq: "CHR ''='' \<in> set s"
  then have "dropWhile (\<lambda>c. c \<noteq> CHR ''='') s \<noteq> []"
    by (simp add: dropWhile_eq_Nil_conv)
  moreover from this have "hd (dropWhile (\<lambda>c. c \<noteq> CHR ''='') s) = CHR ''=''"
    using hd_dropWhile [of "\<lambda>c. c \<noteq> CHR ''=''" s] by simp
  ultimately have "dropWhile (\<lambda>c. c \<noteq> CHR ''='') s
                     = CHR ''='' # tl (dropWhile (\<lambda>c. c \<noteq> CHR ''='') s)"
    by (metis list.collapse)
  with takeWhile_dropWhile_id [of "\<lambda>c. c \<noteq> CHR ''=''" s]
  have "s = takeWhile (\<lambda>c. c \<noteq> CHR ''='') s @ CHR ''='' # tl (dropWhile (\<lambda>c. c \<noteq> CHR ''='') s)"
    by simp
  moreover have "CHR ''='' \<notin> set (takeWhile (\<lambda>c. c \<noteq> CHR ''='') s)"
    by (auto dest: set_takeWhileD)
  ultimately show ?thesis by blast
qed

lemma split_option_cases:
  "(CHR ''='' \<in> set s \<longrightarrow>
      (\<exists>n v. split_option s = (Some n, v) \<and> s = n @ CHR ''='' # v \<and> CHR ''='' \<notin> set n)) \<and>
   (CHR ''='' \<notin> set s \<longrightarrow> split_option s = (None, s))"
  using split_at_first_equals [of s] by (auto simp: split_option_def)







section \<open>The stages of \<^verbatim>\<open>convert\<close>\<close>

lemma with_TempFileIfNeeded_fst:
  "enter_TempFileIfNeeded env path suffix data w = (name, t, w1) \<Longrightarrow>
   fst (with_TempFileIfNeeded env path suffix data body w) = fst (body name w1)"
  by (simp add: with_TempFileIfNeeded_def split: prod.splits)

lemma with_TempFileIfNeeded_trace:
  "enter_TempFileIfNeeded env path suffix data w = (name, t, w1) \<Longrightarrow>
   trace (snd (with_TempFileIfNeeded env path suffix data body w)) = trace (snd (body name w1))"
  by (simp add: with_TempFileIfNeeded_def exit_TempFileIfNeeded_def split: prod.splits)

lemma enter_TempFileIfNeeded_keeps:
  "enter_TempFileIfNeeded env path suffix data w = (name, t, w1) \<Longrightarrow>
   trace w1 = trace w \<and> export_filters w1 = export_filters w \<and>
   import_filters w1 = import_filters w"
  by (auto simp: enter_TempFileIfNeeded_def Let_def split: option.splits if_splits)

lemma get_available_import_filters_trace:
  "get_available_import_filters env w = (fs, w1) \<Longrightarrow>
   export_filters w1 = export_filters w \<and>
   (\<exists>qs. trace w1 = trace w @ qs \<and>
      (\<forall>e \<in> set qs. e = CatalogQuery ''getSortedFilterList():iflags=1''))"
  by (auto simp: get_available_import_filters_def log_def Let_def split: option.splits)

lemma input_props_trace:
  "input_props env n w = (r, w1) \<Longrightarrow>
   export_filters w1 = export_filters w \<and>
   (\<exists>qs. trace w1 = trace w @ qs \<and>
      (\<forall>e \<in> set qs. e = CatalogQuery ''getSortedFilterList():iflags=1''))"
proof -
  assume run: "input_props env n w = (r, w1)"
  obtain fs w' where q: "get_available_import_filters env w = (fs, w')"
    by (cases "get_available_import_filters env w")
  from run q have "w1 = w \<or> w1 = w'"
    by (auto simp: input_props_def Let_def split: option.splits if_splits)
  with get_available_import_filters_trace [OF q] show ?thesis
    by auto
qed

lemma update_indexes_keeps:
  "update_indexes us i w = (r, w') \<Longrightarrow> export_filters w' = export_filters w"
  by (induction us i w rule: update_indexes.induct)
    (auto simp: log_def split: option.splits)

lemma refresh_pass_keeps:
  "refresh_pass doc ii w = (r, w') \<Longrightarrow> export_filters w' = export_filters w"
  by (auto simp: refresh_pass_def log_def Let_def
      split: option.splits exn.splits sum.splits prod.splits dest!: update_indexes_keeps)

lemma refresh_loop_keeps:
  "refresh_loop doc iis w = (r, w') \<Longrightarrow> export_filters w' = export_filters w"
proof (induction iis arbitrary: w)
  case Nil
  then show ?case by simp
next
  case (Cons ii iis)
  obtain p w1 where pass: "refresh_pass doc ii w = (p, w1)"
    by (cases "refresh_pass doc ii w")
  from refresh_pass_keeps [OF pass] have keep: "export_filters w1 = export_filters w" .
  show ?case
  proof (cases p)
    case Continue
    with Cons.prems pass have "refresh_loop doc iis w1 = (r, w')" by simp
    from Cons.IH [OF this] keep show ?thesis by simp
  next
    case Break
    with Cons.prems pass keep show ?thesis by auto
  next
    case (Raise e)
    with Cons.prems pass keep show ?thesis by auto
  qed
qed

lemma refresh_indexes_keeps:
  assumes "refresh_indexes update doc w = (r, w')"
  shows "export_filters w' = export_filters w"
proof (cases update)
  case True
  with assms have "refresh_loop doc [0, 1] w = (r, w')"
    by (simp only: refresh_indexes_def if_True)
  then show ?thesis by (rule refresh_loop_keeps)
next
  case False
  with assms have "(None, w) = (r, w')"
    by (simp only: refresh_indexes_def if_False)
  then show ?thesis by simp
qed

section \<open>A missing input file\<close>

lemma input_props_keeps_files:
  "input_props env n w = (r, w1) \<Longrightarrow> files w1 = files w \<and> temps w1 = temps w"
  by (auto simp: input_props_def get_available_import_filters_def log_def Let_def
      split: option.splits if_splits prod.splits)

lemma enter_TempFileIfNeeded_same_disk:
  assumes "enter_TempFileIfNeeded env path suffix data w = (name, t, w')"
    and "files w1 = files w" and "temps w1 = temps w"
  shows "\<exists>w2. enter_TempFileIfNeeded env path suffix data w1 = (name, t, w2) \<and>
           files w2 = files w'"
  using assms
  by (auto simp: enter_TempFileIfNeeded_def Let_def split: option.splits if_splits)

lemma input_props_cases:
  "fst (input_props env n w) =
     (case n of
        None \<Rightarrow> Inr [(''ReadOnly'', VBool True)]
      | Some m \<Rightarrow>
          if m = [] then Inr [(''ReadOnly'', VBool True)]
          else (case map_of (get_filter_names (fst (get_available_import_filters env w))) m of
                  Some canonical \<Rightarrow>
                    Inr [(''ReadOnly'', VBool True), (''FilterName'', VStr canonical)]
                | None \<Rightarrow>
                    Inl (NoImportFilter m
                           (sort (map fst (get_filter_names
                              (fst (get_available_import_filters env w))))))))"
  by (auto simp: input_props_def Let_def split: option.splits prod.splits)

text \<open>
  C8, as the code has it. When the path that \<^verbatim>\<open>TempFileIfNeeded\<close> yields for the input
  does not exist, \<^verbatim>\<open>convert\<close> raises, and the only remote calls it has made are queries
  of the import filter catalogue: \<^verbatim>\<open>loadComponentFromURL\<close> is not among them. The error
  is the \<^verbatim>\<open>RuntimeError\<close> of line 215 for that path, unless a non-empty
  \<^verbatim>\<open>infiltername\<close> that is not a key of the import alias table was given: the check of
  lines 200 to 209 comes first, and its \<^verbatim>\<open>ValueError\<close> is raised instead.
\<close>

theorem convert_missing_input:
  assumes "enter_TempFileIfNeeded env (inpath a) [] (indata a) w = (input_path, is_temp, w')"
    and "files w' input_path = None"
  shows "fst (convert env a w) =
           (case infiltername a of
              None \<Rightarrow> Inl (PathDoesNotExist input_path)
            | Some n \<Rightarrow>
                if n = [] \<or>
                   map_of (get_filter_names (fst (get_available_import_filters env w))) n \<noteq> None
                then Inl (PathDoesNotExist input_path)
                else Inl (NoImportFilter n
                            (sort (map fst (get_filter_names
                               (fst (get_available_import_filters env w))))))) \<and>
         (\<exists>qs. trace (snd (convert env a w)) = trace w @ qs \<and>
            (\<forall>e \<in> set qs. e = CatalogQuery ''getSortedFilterList():iflags=1'') \<and>
            (\<forall>url ps. LoadComponentFromURL url ps \<notin> set qs))"
proof -
  obtain r w1 where ip: "input_props env (infiltername a) w = (r, w1)"
    by (cases "input_props env (infiltername a) w")
  from input_props_trace [OF ip] obtain qs where
    qs: "trace w1 = trace w @ qs"
      "\<forall>e \<in> set qs. e = CatalogQuery ''getSortedFilterList():iflags=1''"
    by blast
  from qs(2) have noload: "\<forall>url ps. LoadComponentFromURL url ps \<notin> set qs"
    by auto
  from ip have r: "r = fst (input_props env (infiltername a) w)" by simp
  show ?thesis
  proof (cases r)
    case (Inl e)
    with ip have c: "convert env a w = (Inl e, w1)" by (simp add: convert_def)
    from Inl r have "fst (input_props env (infiltername a) w) = Inl e" by simp
    then have "(case infiltername a of
              None \<Rightarrow> Inl (PathDoesNotExist input_path)
            | Some n \<Rightarrow>
                if n = [] \<or>
                   map_of (get_filter_names (fst (get_available_import_filters env w))) n \<noteq> None
                then Inl (PathDoesNotExist input_path)
                else Inl (NoImportFilter n
                            (sort (map fst (get_filter_names
                               (fst (get_available_import_filters env w))))))) =
              (Inl e :: error + bytes option)"
      unfolding input_props_cases by (auto split: option.splits if_splits)
    with c qs noload show ?thesis by auto
  next
    case (Inr props)
    from input_props_keeps_files [OF ip]
      enter_TempFileIfNeeded_same_disk [OF assms(1), of w1]
    obtain w2 where
      enter: "enter_TempFileIfNeeded env (inpath a) [] (indata a) w1 = (input_path, is_temp, w2)"
      and disk: "files w2 = files w'"
      by auto
    from disk assms(2) have missing: "files w2 input_path = None" by simp
    have c: "convert env a w =
               with_TempFileIfNeeded env (inpath a) [] (indata a) (load_and_export env a props) w1"
      using ip Inr by (simp add: convert_def)
    have body: "load_and_export env a props input_path w2
                  = (Inl (PathDoesNotExist input_path), w2)"
      using missing by (simp add: load_and_export_def)
    have res: "fst (convert env a w) = Inl (PathDoesNotExist input_path)"
      unfolding c
      using with_TempFileIfNeeded_fst [OF enter, where body = "load_and_export env a props"] body
      by simp
    have "trace (snd (convert env a w)) = trace w2"
      unfolding c
      using with_TempFileIfNeeded_trace [OF enter, where body = "load_and_export env a props"] body
      by simp
    also have "\<dots> = trace w1"
      using enter_TempFileIfNeeded_keeps [OF enter] by simp
    finally have t: "trace (snd (convert env a w)) = trace w1" .
    from Inr r have "fst (input_props env (infiltername a) w) = Inr props" by simp
    then have "(case infiltername a of
              None \<Rightarrow> Inl (PathDoesNotExist input_path)
            | Some n \<Rightarrow>
                if n = [] \<or>
                   map_of (get_filter_names (fst (get_available_import_filters env w))) n \<noteq> None
                then Inl (PathDoesNotExist input_path)
                else Inl (NoImportFilter n
                            (sort (map fst (get_filter_names
                               (fst (get_available_import_filters env w))))))) =
              (Inl (PathDoesNotExist input_path) :: error + bytes option)"
      unfolding input_props_cases by (auto split: option.splits if_splits)
    with res t qs noload show ?thesis by auto
  qed
qed

lemmas eval_simps =
  convert_def input_props_def with_TempFileIfNeeded_def enter_TempFileIfNeeded_def
  exit_TempFileIfNeeded_def load_and_export_def export_document_def store_document_def
  select_filter_def find_filter_def get_available_import_filters_def
  get_available_export_filters_def get_filter_names_def add_filter_def alias_ok_def
  refresh_indexes_def refresh_pass_def get_doc_type_def DOC_TYPES_def log_def Let_def
  demo_engine_def demo_args_def fresh_def text_doc_def writer8_def pdf_filter_def
  broken_engine_def broken_doc_def

theorem convert_missing_input_witness:
  "enter_TempFileIfNeeded demo_engine (Some ''/missing.odt'') [] None fresh
     = (''/missing.odt'', False, fresh) \<and>
   files fresh ''/missing.odt'' = None \<and>
   fst (convert demo_engine (demo_args\<lparr>inpath := Some ''/missing.odt''\<rparr>) fresh)
     = Inl (PathDoesNotExist ''/missing.odt'') \<and>
   fst (convert demo_engine
          (demo_args\<lparr>inpath := Some ''/missing.odt'', infiltername := Some ''odt''\<rparr>) fresh)
     = Inl (PathDoesNotExist ''/missing.odt'') \<and>
   fst (convert demo_engine
          (demo_args\<lparr>inpath := Some ''/missing.odt'',
                     infiltername := Some ''not-a-real-filter''\<rparr>) fresh)
     = Inl (NoImportFilter ''not-a-real-filter'' [''odt'', ''writer8''])"
proof -
  let ?a = "demo_args\<lparr>inpath := Some ''/missing.odt''\<rparr>"
  let ?b = "demo_args\<lparr>inpath := Some ''/missing.odt'', infiltername := Some ''odt''\<rparr>"
  let ?c = "demo_args\<lparr>inpath := Some ''/missing.odt'',
                      infiltername := Some ''not-a-real-filter''\<rparr>"
  have h1: "enter_TempFileIfNeeded demo_engine (Some ''/missing.odt'') [] None fresh
              = (''/missing.odt'', False, fresh)"
    by (simp add: enter_TempFileIfNeeded_def)
  have h2: "files fresh ''/missing.odt'' = None"
    by (simp add: fresh_def)
  have table: "get_filter_names (fst (get_available_import_filters demo_engine fresh))
                 = [(''writer8'', ''writer8''), (''odt'', ''writer8'')]"
    by (simp add: get_available_import_filters_def demo_engine_def fresh_def log_def Let_def
        get_filter_names_def add_filter_def alias_ok_def writer8_def)
  have ha: "enter_TempFileIfNeeded demo_engine (inpath ?a) [] (indata ?a) fresh
              = (''/missing.odt'', False, fresh)"
    using h1 by (simp add: demo_args_def)
  have hb: "enter_TempFileIfNeeded demo_engine (inpath ?b) [] (indata ?b) fresh
              = (''/missing.odt'', False, fresh)"
    using h1 by (simp add: demo_args_def)
  have hc: "enter_TempFileIfNeeded demo_engine (inpath ?c) [] (indata ?c) fresh
              = (''/missing.odt'', False, fresh)"
    using h1 by (simp add: demo_args_def)
  from convert_missing_input [OF ha h2]
  have ra: "fst (convert demo_engine ?a fresh) = Inl (PathDoesNotExist ''/missing.odt'')"
    by (simp add: demo_args_def)
  from convert_missing_input [OF hb h2]
  have rb: "fst (convert demo_engine ?b fresh) = Inl (PathDoesNotExist ''/missing.odt'')"
    by (simp add: table)
  from convert_missing_input [OF hc h2]
  have rc: "fst (convert demo_engine ?c fresh)
              = Inl (NoImportFilter ''not-a-real-filter'' [''odt'', ''writer8''])"
    by (simp add: table)
  from h1 h2 ra rb rc show ?thesis by (intro conjI)
qed

text \<open>
  C8 as stated fails: with a missing input file and an unknown import filter name, the
  error raised is the \<^verbatim>\<open>ValueError\<close> of line 207, not the \<^verbatim>\<open>RuntimeError\<close> of line
  215.
\<close>

theorem convert_missing_input_counterexample:
  "enter_TempFileIfNeeded demo_engine (Some ''/missing.odt'') [] None fresh
     = (''/missing.odt'', False, fresh) \<and>
   files fresh ''/missing.odt'' = None \<and>
   fst (convert demo_engine
          (demo_args\<lparr>inpath := Some ''/missing.odt'',
                     infiltername := Some ''not-a-real-filter''\<rparr>) fresh)
     = Inl (NoImportFilter ''not-a-real-filter'' [''odt'', ''writer8'']) \<and>
   NoImportFilter ''not-a-real-filter'' [''odt'', ''writer8'']
     \<noteq> PathDoesNotExist ''/missing.odt''"
  by (simp add: eval_simps)

section \<open>Unknown filter names\<close>

lemma store_document_unknown_filter:
  assumes "filtername a = Some m"
    and "queryTypeByURL env (fileUrl env output_path) \<noteq> []"
    and "get_available_export_filters env (log (QueryTypeByURL (fileUrl env output_path)) w)
           = (gs, w2)"
    and "map_of (get_filter_names gs) m = None"
  shows "store_document env a doc import_type ext output_path w
           = (Inl (NoExportFilter m (sort (map fst (get_filter_names gs)))), w2)"
  using assms by (simp add: store_document_def select_filter_def Let_def)

lemma export_table_at:
  assumes "get_available_export_filters env w' = (gs, w2)"
    and "export_filters w' = export_filters w"
  shows "get_filter_names gs = export_table env w (trace w')"
  using assms
  by (auto simp: get_available_export_filters_def export_table_def Let_def split: option.splits)

lemma store_document_fails:
  assumes "filtername a = Some m" and "\<forall>tr. map_of (export_table env w tr) m = None"
  shows "\<exists>e. fst (store_document env a doc import_type ext output_path w) = Inl e"
proof (cases "queryTypeByURL env (fileUrl env output_path) = []")
  case True
  then show ?thesis by (simp add: store_document_def Let_def)
next
  case False
  let ?w' = "log (QueryTypeByURL (fileUrl env output_path)) w"
  obtain gs w2 where q: "get_available_export_filters env ?w' = (gs, w2)"
    by (cases "get_available_export_filters env ?w'")
  have "export_filters ?w' = export_filters w" by (simp add: log_def)
  from export_table_at [OF q this] assms(2) have "map_of (get_filter_names gs) m = None"
    by simp
  from store_document_unknown_filter [OF assms(1) False q this] show ?thesis
    by simp
qed

lemma export_document_fails:
  assumes "filtername a = Some m" and "\<forall>tr. map_of (export_table env w tr) m = None"
  shows "\<exists>e. fst (export_document env a doc w) = Inl e"
proof (cases "get_doc_type (set_pop env) doc")
  case (Inl e)
  then show ?thesis by (simp add: export_document_def)
next
  case (Inr import_type)
  show ?thesis
  proof (cases "convert_to a")
    case None
    with Inr show ?thesis by (simp add: export_document_def)
  next
    case (Some ext)
    obtain name t w1 where
      enter: "enter_TempFileIfNeeded env (outpath a) (CHR ''.'' # ext) None w = (name, t, w1)"
      by (cases "enter_TempFileIfNeeded env (outpath a) (CHR ''.'' # ext) None w") auto
    from enter_TempFileIfNeeded_keeps [OF enter] assms(2)
    have "\<forall>tr. map_of (export_table env w1 tr) m = None"
      by (simp add: export_table_def)
    from store_document_fails [OF assms(1) this]
    obtain e where "fst (store_document env a doc import_type ext name w1) = Inl e"
      by blast
    with Inr Some
      with_TempFileIfNeeded_fst [OF enter, where body = "store_document env a doc import_type ext"]
    show ?thesis by (simp add: export_document_def)
  qed
qed

lemma load_and_export_fails:
  assumes "filtername a = Some m" and "\<forall>tr. map_of (export_table env w tr) m = None"
  shows "\<exists>e. fst (load_and_export env a props input_path w) = Inl e"
proof (cases "files w input_path = None")
  case True
  then show ?thesis by (simp add: load_and_export_def)
next
  case exists: False
  let ?w1 = "log (LoadComponentFromURL (fileUrl env input_path) props) w"
  show ?thesis
  proof (cases "loadComponentFromURL env (fileUrl env input_path) props")
    case (Inl e)
    with exists show ?thesis by (simp add: load_and_export_def Let_def)
  next
    case (Inr d)
    show ?thesis
    proof (cases d)
      case None
      with exists Inr show ?thesis by (simp add: load_and_export_def Let_def)
    next
      case (Some doc)
      obtain r w2 where loop: "refresh_indexes (update_index a) doc ?w1 = (r, w2)"
        by (cases "refresh_indexes (update_index a) doc ?w1")
      from refresh_indexes_keeps [OF loop] have "export_filters w2 = export_filters w"
        by (simp add: log_def)
      with assms(2) have "\<forall>tr. map_of (export_table env w2 tr) m = None"
        by (simp add: export_table_def)
      from export_document_fails [OF assms(1) this]
      obtain e where e: "fst (export_document env a doc w2) = Inl e"
        by blast
      show ?thesis
      proof (cases r)
        case None
        with exists Inr \<open>d = Some doc\<close> loop e show ?thesis
          by (auto simp: load_and_export_def Let_def split: prod.splits)
      next
        case (Some x)
        with exists Inr \<open>d = Some doc\<close> loop show ?thesis
          by (simp add: load_and_export_def Let_def)
      qed
    qed
  qed
qed

lemma convert_fails_on_unknown_export_filter:
  assumes "filtername a = Some m" and "\<forall>tr. map_of (export_table env w tr) m = None"
  shows "\<exists>e. fst (convert env a w) = Inl e"
proof -
  obtain r w1 where ip: "input_props env (infiltername a) w = (r, w1)"
    by (cases "input_props env (infiltername a) w")
  show ?thesis
  proof (cases r)
    case (Inl e)
    with ip show ?thesis by (simp add: convert_def)
  next
    case (Inr props)
    obtain name t w2 where
      enter: "enter_TempFileIfNeeded env (inpath a) [] (indata a) w1 = (name, t, w2)"
      by (cases "enter_TempFileIfNeeded env (inpath a) [] (indata a) w1") auto
    from input_props_trace [OF ip] enter_TempFileIfNeeded_keeps [OF enter]
    have "export_filters w2 = export_filters w" by simp
    with assms(2) have "\<forall>tr. map_of (export_table env w2 tr) m = None"
      by (simp add: export_table_def)
    from load_and_export_fails [OF assms(1) this]
    obtain e where "fst (load_and_export env a props name w2) = Inl e"
      by blast
    with ip Inr with_TempFileIfNeeded_fst [OF enter, where body = "load_and_export env a props"]
    show ?thesis by (simp add: convert_def)
  qed
qed

lemma sorted_keys:
  "sorted (sort (map fst table)) \<and>
   set (sort (map fst table)) = {k. map_of table k \<noteq> None}"
proof -
  have "set (map fst table) = dom (map_of table)"
    by (simp add: dom_map_of_conv_image_fst)
  then show ?thesis by (auto simp: dom_def)
qed

lemma convert_unknown_import_filter:
  assumes "infiltername a = Some n" and "n \<noteq> []"
    and "get_available_import_filters env w = (fs, w1)"
    and "map_of (get_filter_names fs) n = None"
  shows "convert env a w = (Inl (NoImportFilter n (sort (map fst (get_filter_names fs)))), w1)"
  using assms by (simp add: convert_def input_props_def Let_def)

lemma convert_unknown_export_filter:
  assumes "input_props env (infiltername a) w = (Inr props, wa)"
    and "enter_TempFileIfNeeded env (inpath a) [] (indata a) wa = (input_path, t1, wb)"
    and "files wb input_path \<noteq> None"
    and "loadComponentFromURL env (fileUrl env input_path) props = Inr (Some doc)"
    and "refresh_indexes (update_index a) doc
           (log (LoadComponentFromURL (fileUrl env input_path) props) wb) = (None, wc)"
    and "get_doc_type (set_pop env) doc = Inr import_type"
    and "convert_to a = Some ext"
    and "enter_TempFileIfNeeded env (outpath a) (CHR ''.'' # ext) None wc = (output_path, t2, wd)"
    and "queryTypeByURL env (fileUrl env output_path) \<noteq> []"
    and "filtername a = Some m"
    and "get_available_export_filters env (log (QueryTypeByURL (fileUrl env output_path)) wd)
           = (gs, we)"
    and "map_of (get_filter_names gs) m = None"
  shows "fst (convert env a w) = Inl (NoExportFilter m (sort (map fst (get_filter_names gs))))"
proof -
  let ?err = "Inl (NoExportFilter m (sort (map fst (get_filter_names gs)))) :: error + bytes option"
  have store: "store_document env a doc import_type ext output_path wd = (?err, we)"
    using assms(10,9,11,12) by (rule store_document_unknown_filter)
  have "fst (export_document env a doc wc)
          = fst (with_TempFileIfNeeded env (outpath a) (CHR ''.'' # ext) None
                   (store_document env a doc import_type ext) wc)"
    using assms(6,7) by (simp add: export_document_def)
  also have "\<dots> = fst (store_document env a doc import_type ext output_path wd)"
    using assms(8) by (rule with_TempFileIfNeeded_fst)
  finally have export: "fst (export_document env a doc wc) = ?err"
    using store by simp
  have load: "fst (load_and_export env a props input_path wb) = ?err"
    using assms(3,4,5) export
    by (auto simp: load_and_export_def Let_def split: prod.splits)
  have "fst (convert env a w)
          = fst (with_TempFileIfNeeded env (inpath a) [] (indata a)
                   (load_and_export env a props) wa)"
    using assms(1) by (simp add: convert_def)
  also have "\<dots> = fst (load_and_export env a props input_path wb)"
    using assms(2) by (rule with_TempFileIfNeeded_fst)
  finally show ?thesis using load by simp
qed

text \<open>
  C7, as the code has it.
  \<^item> A non-empty \<^verbatim>\<open>infiltername\<close> that is not a key of the import alias table makes
    \<^verbatim>\<open>convert\<close> raise the error of line 207, which carries the name and the sorted keys
    of the table; the world is then the one \<^verbatim>\<open>get_available_import_filters\<close> left, so
    the only remote call made is at most one catalogue query, and no document is loaded.
  \<^item> Once the output block has a recognised export type, a \<^verbatim>\<open>filtername\<close> that is not
    a key of the export alias table makes it raise the error of line 282 with the name
    and the sorted keys of that table.
  \<^item> With such a \<^verbatim>\<open>filtername\<close>, \<^verbatim>\<open>convert\<close> raises in every case: an error of an
    earlier step, or that one.
  \<^item> The list in either error is sorted and holds exactly the keys of the table.
  \<^item> When every step before the check of the export filter name succeeds (the load
    properties are built, the input path exists, the document is loaded, the index loop
    does not raise, the document type is known, \<^verbatim>\<open>convert_to\<close> is given and the export
    type is detected), a \<^verbatim>\<open>filtername\<close> that is not a key of the export alias table
    makes \<^verbatim>\<open>convert\<close> itself raise the error of line 282 with the name and the sorted
    keys of that table.
\<close>

theorem convert_unknown_filter_name:
  "(infiltername a = Some n \<and> n \<noteq> [] \<and>
    get_available_import_filters env w = (fs, w1) \<and> map_of (get_filter_names fs) n = None \<longrightarrow>
      convert env a w = (Inl (NoImportFilter n (sort (map fst (get_filter_names fs)))), w1) \<and>
      (\<exists>qs. trace w1 = trace w @ qs \<and>
         (\<forall>e \<in> set qs. e = CatalogQuery ''getSortedFilterList():iflags=1''))) \<and>
   (filtername a = Some m \<and> queryTypeByURL env (fileUrl env output_path) \<noteq> [] \<and>
    get_available_export_filters env (log (QueryTypeByURL (fileUrl env output_path)) w') = (gs, w2) \<and>
    map_of (get_filter_names gs) m = None \<longrightarrow>
      store_document env a doc import_type ext output_path w'
        = (Inl (NoExportFilter m (sort (map fst (get_filter_names gs)))), w2)) \<and>
   (filtername a = Some m \<and> (\<forall>tr. map_of (export_table env w tr) m = None) \<longrightarrow>
      (\<exists>e. fst (convert env a w) = Inl e)) \<and>
   (\<forall>table :: dict. sorted (sort (map fst table)) \<and>
      set (sort (map fst table)) = {k. map_of table k \<noteq> None}) \<and>
   (\<forall>props wa input_path t1 wb doc wc import_type ext output_path t2 wd gs we.
      input_props env (infiltername a) w = (Inr props, wa) \<and>
      enter_TempFileIfNeeded env (inpath a) [] (indata a) wa = (input_path, t1, wb) \<and>
      files wb input_path \<noteq> None \<and>
      loadComponentFromURL env (fileUrl env input_path) props = Inr (Some doc) \<and>
      refresh_indexes (update_index a) doc
        (log (LoadComponentFromURL (fileUrl env input_path) props) wb) = (None, wc) \<and>
      get_doc_type (set_pop env) doc = Inr import_type \<and>
      convert_to a = Some ext \<and>
      enter_TempFileIfNeeded env (outpath a) (CHR ''.'' # ext) None wc = (output_path, t2, wd) \<and>
      queryTypeByURL env (fileUrl env output_path) \<noteq> [] \<and>
      filtername a = Some m \<and>
      get_available_export_filters env (log (QueryTypeByURL (fileUrl env output_path)) wd)
        = (gs, we) \<and>
      map_of (get_filter_names gs) m = None \<longrightarrow>
        fst (convert env a w) = Inl (NoExportFilter m (sort (map fst (get_filter_names gs)))))"
proof (intro conjI impI allI)
  assume h: "infiltername a = Some n \<and> n \<noteq> [] \<and>
    get_available_import_filters env w = (fs, w1) \<and> map_of (get_filter_names fs) n = None"
  then show "convert env a w
               = (Inl (NoImportFilter n (sort (map fst (get_filter_names fs)))), w1)"
    by (intro convert_unknown_import_filter) simp_all
  from h have "get_available_import_filters env w = (fs, w1)" by simp
  from get_available_import_filters_trace [OF this]
  show "\<exists>qs. trace w1 = trace w @ qs \<and>
          (\<forall>e \<in> set qs. e = CatalogQuery ''getSortedFilterList():iflags=1'')"
    by simp
next
  assume "filtername a = Some m \<and> queryTypeByURL env (fileUrl env output_path) \<noteq> [] \<and>
    get_available_export_filters env (log (QueryTypeByURL (fileUrl env output_path)) w') = (gs, w2) \<and>
    map_of (get_filter_names gs) m = None"
  then show "store_document env a doc import_type ext output_path w'
               = (Inl (NoExportFilter m (sort (map fst (get_filter_names gs)))), w2)"
    by (intro store_document_unknown_filter) simp_all
next
  assume h: "filtername a = Some m \<and> (\<forall>tr. map_of (export_table env w tr) m = None)"
  from h have h1: "filtername a = Some m" by (rule conjunct1)
  from h have h2: "\<forall>tr. map_of (export_table env w tr) m = None" by (rule conjunct2)
  from h1 h2 show "\<exists>e. fst (convert env a w) = Inl e"
    by (rule convert_fails_on_unknown_export_filter)
next
  fix table :: dict
  show "sorted (sort (map fst table))" by simp
  show "set (sort (map fst table)) = {k. map_of table k \<noteq> None}"
    using sorted_keys [of table] by simp
next
  fix props wa input_path t1 wb doc wc import_type ext output_path t2 wd gs we
  assume h: "input_props env (infiltername a) w = (Inr props, wa) \<and>
      enter_TempFileIfNeeded env (inpath a) [] (indata a) wa = (input_path, t1, wb) \<and>
      files wb input_path \<noteq> None \<and>
      loadComponentFromURL env (fileUrl env input_path) props = Inr (Some doc) \<and>
      refresh_indexes (update_index a) doc
        (log (LoadComponentFromURL (fileUrl env input_path) props) wb) = (None, wc) \<and>
      get_doc_type (set_pop env) doc = Inr import_type \<and>
      convert_to a = Some ext \<and>
      enter_TempFileIfNeeded env (outpath a) (CHR ''.'' # ext) None wc = (output_path, t2, wd) \<and>
      queryTypeByURL env (fileUrl env output_path) \<noteq> [] \<and>
      filtername a = Some m \<and>
      get_available_export_filters env (log (QueryTypeByURL (fileUrl env output_path)) wd)
        = (gs, we) \<and>
      map_of (get_filter_names gs) m = None"
  show "fst (convert env a w) = Inl (NoExportFilter m (sort (map fst (get_filter_names gs))))"
    by (rule convert_unknown_export_filter [where props = props and wa = wa
          and input_path = input_path and ?t1.0 = t1 and wb = wb and doc = doc and wc = wc
          and import_type = import_type and ext = ext and output_path = output_path
          and ?t2.0 = t2 and wd = wd and we = we])
      (use h in blast)+
qed

theorem convert_unknown_filter_name_witness:
  "convert demo_engine (demo_args\<lparr>infiltername := Some ''not-a-real-filter''\<rparr>) fresh
     = (Inl (NoImportFilter ''not-a-real-filter'' [''odt'', ''writer8'']),
        fresh\<lparr>import_filters := Some [writer8],
              trace := [CatalogQuery ''getSortedFilterList():iflags=1'']\<rparr>) \<and>
   store_document demo_engine (demo_args\<lparr>filtername := Some ''bogus''\<rparr>) text_doc
       ''com.sun.star.text.TextDocument'' ''pdf'' ''/tmp/tmp.pdf'' fresh
     = (Inl (NoExportFilter ''bogus'' [''odt'', ''pdf'', ''writer8'', ''writer_pdf_Export'']),
        fresh\<lparr>export_filters := Some [writer8, pdf_filter],
              trace := [QueryTypeByURL ''file:///tmp/tmp.pdf'',
                        CatalogQuery ''getSortedFilterList():iflags=2'']\<rparr>) \<and>
   (\<exists>e. fst (convert demo_engine (demo_args\<lparr>filtername := Some ''bogus''\<rparr>) fresh) = Inl e) \<and>
   fst (convert demo_engine (demo_args\<lparr>filtername := Some ''bogus''\<rparr>) fresh)
     = Inl (NoExportFilter ''bogus'' [''odt'', ''pdf'', ''writer8'', ''writer_pdf_Export''])"
proof -
  let ?a1 = "demo_args\<lparr>infiltername := Some ''not-a-real-filter''\<rparr>"
  let ?a2 = "demo_args\<lparr>filtername := Some ''bogus''\<rparr>"
  let ?w1 = "fresh\<lparr>import_filters := Some [writer8],
                   trace := [CatalogQuery ''getSortedFilterList():iflags=1'']\<rparr>"
  let ?w2 = "fresh\<lparr>export_filters := Some [writer8, pdf_filter],
                   trace := [QueryTypeByURL ''file:///tmp/tmp.pdf'',
                             CatalogQuery ''getSortedFilterList():iflags=2'']\<rparr>"
  have names1: "get_filter_names [writer8] = [(''writer8'', ''writer8''), (''odt'', ''writer8'')]"
    by (simp add: get_filter_names_def add_filter_def alias_ok_def writer8_def)
  have names2: "get_filter_names [writer8, pdf_filter] =
      [(''writer8'', ''writer8''), (''odt'', ''writer8''),
       (''writer_pdf_Export'', ''writer_pdf_Export''), (''pdf'', ''writer_pdf_Export'')]"
    by (simp add: get_filter_names_def add_filter_def alias_ok_def writer8_def pdf_filter_def)
  have i1: "infiltername ?a1 = Some ''not-a-real-filter''" by simp
  have i2: "''not-a-real-filter'' \<noteq> []" by simp
  have i3: "get_available_import_filters demo_engine fresh = ([writer8], ?w1)"
    by (simp add: get_available_import_filters_def demo_engine_def fresh_def log_def Let_def)
  have i4: "map_of (get_filter_names [writer8]) ''not-a-real-filter'' = None"
    by (simp add: names1)
  have e1: "filtername ?a2 = Some ''bogus''" by simp
  have e2: "queryTypeByURL demo_engine (fileUrl demo_engine ''/tmp/tmp.pdf'') \<noteq> []"
    by (simp add: demo_engine_def)
  have e3: "get_available_export_filters demo_engine
              (log (QueryTypeByURL (fileUrl demo_engine ''/tmp/tmp.pdf'')) fresh)
              = ([writer8, pdf_filter], ?w2)"
    by (simp add: get_available_export_filters_def demo_engine_def fresh_def log_def Let_def)
  have e4: "map_of (get_filter_names [writer8, pdf_filter]) ''bogus'' = None"
    by (simp add: names2)
  have e5: "\<forall>tr. map_of (export_table demo_engine fresh tr) ''bogus'' = None"
    by (simp add: export_table_def fresh_def demo_engine_def get_filter_names_def
        add_filter_def alias_ok_def writer8_def pdf_filter_def)
  note inst = convert_unknown_filter_name
    [of ?a1 "''not-a-real-filter''" demo_engine fresh "[writer8]" ?w1]
  from inst i1 i2 i3 i4
  have r1: "convert demo_engine ?a1 fresh
              = (Inl (NoImportFilter ''not-a-real-filter'' (sort (map fst (get_filter_names [writer8])))), ?w1)"
    by blast
  have s1: "sort (map fst (get_filter_names [writer8])) = [''odt'', ''writer8'']"
    by (simp add: names1)
  from convert_unknown_filter_name
    [of ?a2 _ demo_engine _ _ _ "''bogus''" "''/tmp/tmp.pdf''" fresh "[writer8, pdf_filter]" ?w2
        text_doc "''com.sun.star.text.TextDocument''" "''pdf''"]
    e1 e2 e3 e4
  have r2: "store_document demo_engine ?a2 text_doc ''com.sun.star.text.TextDocument'' ''pdf''
              ''/tmp/tmp.pdf'' fresh
              = (Inl (NoExportFilter ''bogus'' (sort (map fst (get_filter_names [writer8, pdf_filter])))), ?w2)"
    by blast
  have s2: "sort (map fst (get_filter_names [writer8, pdf_filter]))
              = [''odt'', ''pdf'', ''writer8'', ''writer_pdf_Export'']"
    by (simp add: names2)
  from convert_unknown_filter_name [of ?a2 _ demo_engine fresh _ _ "''bogus''"] e1 e5
  have r3: "\<exists>e. fst (convert demo_engine ?a2 fresh) = Inl e"
    by blast
  let ?load = "LoadComponentFromURL ''file:///in.odt'' [(''ReadOnly'', VBool True)]"
  let ?wc = "fresh\<lparr>trace := [?load, Refresh, GetDocumentIndexes, IndexUpdate 0,
                                Refresh, GetDocumentIndexes, IndexUpdate 0]\<rparr>"
  let ?wd = "?wc\<lparr>files := (files ?wc)(''/tmp/tmp.pdf'' \<mapsto> []), temps := Suc (temps ?wc)\<rparr>"
  let ?we = "(log (CatalogQuery ''getSortedFilterList():iflags=2'')
               (log (QueryTypeByURL ''file:///tmp/tmp.pdf'') ?wd))
             \<lparr>export_filters := Some [writer8, pdf_filter]\<rparr>"
  have c1: "input_props demo_engine (infiltername ?a2) fresh
              = (Inr [(''ReadOnly'', VBool True)], fresh)"
    by (simp add: input_props_def demo_args_def)
  have c2: "enter_TempFileIfNeeded demo_engine (inpath ?a2) [] (indata ?a2) fresh
              = (''/in.odt'', False, fresh)"
    by (simp add: enter_TempFileIfNeeded_def demo_args_def)
  have c3: "files fresh ''/in.odt'' \<noteq> None"
    by (simp add: fresh_def)
  have c4: "loadComponentFromURL demo_engine (fileUrl demo_engine ''/in.odt'')
              [(''ReadOnly'', VBool True)] = Inr (Some text_doc)"
    by (simp add: demo_engine_def)
  have c5: "refresh_indexes (update_index ?a2) text_doc
              (log (LoadComponentFromURL (fileUrl demo_engine ''/in.odt'')
                      [(''ReadOnly'', VBool True)]) fresh) = (None, ?wc)"
    by (simp add: refresh_indexes_def refresh_pass_def demo_args_def demo_engine_def
        text_doc_def fresh_def log_def Let_def)
  have c6: "get_doc_type (set_pop demo_engine) text_doc = Inr ''com.sun.star.text.TextDocument''"
    by (simp add: get_doc_type_def DOC_TYPES_def demo_engine_def text_doc_def)
  have c7: "convert_to ?a2 = Some ''pdf''"
    by (simp add: demo_args_def)
  have c8: "enter_TempFileIfNeeded demo_engine (outpath ?a2) (CHR ''.'' # ''pdf'') None ?wc
              = (''/tmp/tmp.pdf'', True, ?wd)"
    by (simp add: enter_TempFileIfNeeded_def demo_args_def demo_engine_def fresh_def Let_def)
  have c11: "get_available_export_filters demo_engine
               (log (QueryTypeByURL (fileUrl demo_engine ''/tmp/tmp.pdf'')) ?wd)
               = ([writer8, pdf_filter], ?we)"
    by (simp add: get_available_export_filters_def demo_engine_def fresh_def log_def Let_def)
  note last = convert_unknown_filter_name
    [of ?a2 _ demo_engine fresh _ _ "''bogus''",
     THEN conjunct2, THEN conjunct2, THEN conjunct2, THEN conjunct2, rule_format]
  have r4: "fst (convert demo_engine ?a2 fresh)
              = Inl (NoExportFilter ''bogus'' (sort (map fst (get_filter_names [writer8, pdf_filter]))))"
    by (rule last)
      (intro conjI, rule c1, rule c2, rule c3, rule c4, rule c5, rule c6, rule c7, rule c8,
       rule e2, rule e1, rule c11, rule e4)
  from r1 r2 r3 r4 show ?thesis unfolding s1 s2 by (intro conjI)
qed

text \<open>
  C7 as stated fails in two ways. An empty \<^verbatim>\<open>infiltername\<close> is not a key of the import
  table, yet \<^verbatim>\<open>if infiltername\<close> skips the check and the conversion succeeds. And an
  unknown export filter name is looked at only when the output block is reached: with
  a missing input file the error is the one of line 215, which lists no names.
\<close>

theorem convert_unknown_filter_name_counterexample:
  "map_of (get_filter_names (fst (get_available_import_filters demo_engine fresh))) [] = None \<and>
   fst (convert demo_engine (demo_args\<lparr>infiltername := Some []\<rparr>) fresh)
     = Inr (Some ''%PDF-1.6'') \<and>
   (\<forall>tr. map_of (export_table demo_engine fresh tr) ''bogus'' = None) \<and>
   fst (convert demo_engine
          (demo_args\<lparr>inpath := Some ''/missing.odt'', filtername := Some ''bogus''\<rparr>) fresh)
     = Inl (PathDoesNotExist ''/missing.odt'')"
  by (simp add: eval_simps export_table_def)

section \<open>Closing the document\<close>

lemma no_close_refl: "no_close w w"
  by (simp add: no_close_def)

lemma no_close_same: "trace w' = trace w \<Longrightarrow> no_close w w'"
  by (simp add: no_close_def)

lemma no_close_trans: "no_close w w1 \<Longrightarrow> no_close w1 w2 \<Longrightarrow> no_close w w2"
  by (auto simp: no_close_def)

lemma no_close_log: "e \<noteq> CloseDocument \<Longrightarrow> no_close w (log e w)"
  by (auto simp: no_close_def log_def)

lemma no_close_export_filters:
  "get_available_export_filters env w = (fs, w') \<Longrightarrow> no_close w w'"
  by (auto simp: get_available_export_filters_def no_close_def log_def Let_def
      split: option.splits)

lemma no_close_select_filter:
  assumes "select_filter env fname import_type export_type w = (r, w')"
  shows "no_close w w'"
proof -
  obtain fs w1 where q: "get_available_export_filters env w = (fs, w1)"
    by (cases "get_available_export_filters env w")
  from assms q have "w' = w1"
    by (auto simp: select_filter_def find_filter_def Let_def
        split: option.splits if_splits)
  with no_close_export_filters [OF q] show ?thesis by simp
qed

lemma no_close_store_document:
  assumes "store_document env a doc import_type ext output_path w = (r, w')"
  shows "no_close w w'"
proof -
  let ?url = "fileUrl env output_path"
  let ?w1 = "log (QueryTypeByURL ?url) w"
  have s1: "no_close w ?w1" by (simp add: no_close_log)
  show ?thesis
  proof (cases "queryTypeByURL env ?url = []")
    case True
    with assms have "w' = ?w1" by (simp add: store_document_def Let_def)
    with s1 show ?thesis by simp
  next
    case False
    obtain f w2 where
      sel: "select_filter env (filtername a) import_type (queryTypeByURL env ?url) ?w1 = (f, w2)"
      by (cases "select_filter env (filtername a) import_type (queryTypeByURL env ?url) ?w1")
    from no_close_select_filter [OF sel] s1 have s2: "no_close w w2"
      by (blast intro: no_close_trans)
    show ?thesis
    proof (cases f)
      case (Inl e)
      with assms False sel have "w' = w2" by (simp add: store_document_def Let_def)
      with s2 show ?thesis by simp
    next
      case (Inr fname)
      show ?thesis
      proof (cases "parse_filter_options env (filter_options a) [] []")
        case (Inl e)
        with assms False sel Inr have "w' = w2" by (simp add: store_document_def Let_def)
        with s2 show ?thesis by simp
      next
        case parsed: (Inr p)
        with assms False sel Inr
        have "\<exists>props. trace w' = trace (log (StoreToURL ?url props) w2)"
          by (auto simp: store_document_def Let_def log_def
              split: prod.splits sum.splits if_splits option.splits)
        then obtain props where "trace w' = trace (log (StoreToURL ?url props) w2)"
          by blast
        then have "no_close (log (StoreToURL ?url props) w2) w'"
          by (rule no_close_same)
        moreover have "no_close w2 (log (StoreToURL ?url props) w2)"
          by (simp add: no_close_log)
        ultimately show ?thesis using s2 by (blast intro: no_close_trans)
      qed
    qed
  qed
qed

lemma no_close_export_document:
  assumes "export_document env a doc w = (r, w')"
  shows "no_close w w'"
proof (cases "get_doc_type (set_pop env) doc")
  case (Inl e)
  with assms have "w' = w" by (simp add: export_document_def)
  then show ?thesis by (simp add: no_close_refl)
next
  case (Inr import_type)
  show ?thesis
  proof (cases "convert_to a")
    case None
    with assms Inr have "w' = w" by (simp add: export_document_def)
    then show ?thesis by (simp add: no_close_refl)
  next
    case (Some ext)
    obtain name t w1 where
      enter: "enter_TempFileIfNeeded env (outpath a) (CHR ''.'' # ext) None w = (name, t, w1)"
      by (cases "enter_TempFileIfNeeded env (outpath a) (CHR ''.'' # ext) None w") auto
    obtain r2 w2 where
      body: "store_document env a doc import_type ext name w1 = (r2, w2)"
      by (cases "store_document env a doc import_type ext name w1")
    from assms Inr Some
    have "w' = snd (with_TempFileIfNeeded env (outpath a) (CHR ''.'' # ext) None
                      (store_document env a doc import_type ext) w)"
      by (simp add: export_document_def)
    with with_TempFileIfNeeded_trace
      [OF enter, where body = "store_document env a doc import_type ext"] body
    have "trace w' = trace w2" by simp
    then have "no_close w2 w'" by (rule no_close_same)
    moreover from enter_TempFileIfNeeded_keeps [OF enter] have "no_close w w1"
      by (simp add: no_close_same)
    moreover note no_close_store_document [OF body]
    ultimately show ?thesis by (blast intro: no_close_trans)
  qed
qed

lemma no_close_update_indexes:
  "update_indexes us i w = (r, w') \<Longrightarrow> no_close w w'"
proof (induction us i w rule: update_indexes.induct)
  case (1 i w)
  then show ?case by (simp add: no_close_refl)
next
  case (2 u us i w)
  have step: "no_close w (log (IndexUpdate i) w)" by (simp add: no_close_log)
  show ?case
  proof (cases u)
    case None
    with 2 have "no_close (log (IndexUpdate i) w) w'" by simp
    with step show ?thesis by (rule no_close_trans)
  next
    case (Some e)
    with 2 step show ?thesis by auto
  qed
qed

lemma no_close_refresh_pass:
  assumes "refresh_pass doc ii w = (r, w')"
  shows "no_close w w'"
proof -
  let ?w1 = "log Refresh w"
  let ?w2 = "log GetDocumentIndexes ?w1"
  have s1: "no_close w ?w1" by (simp add: no_close_log)
  have "no_close ?w1 ?w2" by (simp add: no_close_log)
  with s1 have s2: "no_close w ?w2" by (rule no_close_trans)
  show ?thesis
  proof (cases "refresh doc ii")
    case (Some e)
    with assms have "w' = ?w1"
      by (auto simp: refresh_pass_def Let_def split: exn.splits)
    with s1 show ?thesis by simp
  next
    case None
    show ?thesis
    proof (cases "getDocumentIndexes doc ii")
      case (Inl e)
      with assms None have "w' = ?w2"
        by (auto simp: refresh_pass_def Let_def split: exn.splits)
      with s2 show ?thesis by simp
    next
      case (Inr indexes)
      obtain u w3 where up: "update_indexes indexes 0 ?w2 = (u, w3)"
        by (cases "update_indexes indexes 0 ?w2")
      with assms None Inr have "w' = w3"
        by (auto simp: refresh_pass_def Let_def split: option.splits)
      with no_close_update_indexes [OF up] s2 show ?thesis
        by (blast intro: no_close_trans)
    qed
  qed
qed

lemma no_close_refresh_loop:
  "refresh_loop doc iis w = (r, w') \<Longrightarrow> no_close w w'"
proof (induction iis arbitrary: w)
  case Nil
  then show ?case by (simp add: no_close_refl)
next
  case (Cons ii iis)
  obtain p w1 where pass: "refresh_pass doc ii w = (p, w1)"
    by (cases "refresh_pass doc ii w")
  note s1 = no_close_refresh_pass [OF pass]
  show ?case
  proof (cases p)
    case Continue
    with Cons.prems pass have "refresh_loop doc iis w1 = (r, w')" by simp
    from Cons.IH [OF this] s1 show ?thesis by (blast intro: no_close_trans)
  next
    case Break
    with Cons.prems pass s1 show ?thesis by auto
  next
    case (Raise e)
    with Cons.prems pass s1 show ?thesis by auto
  qed
qed

lemma no_close_refresh_indexes:
  assumes "refresh_indexes update doc w = (r, w')"
  shows "no_close w w'"
proof (cases update)
  case True
  with assms have "refresh_loop doc [0, 1] w = (r, w')"
    by (simp only: refresh_indexes_def if_True)
  then show ?thesis by (rule no_close_refresh_loop)
next
  case False
  with assms have "(None, w) = (r, w')"
    by (simp only: refresh_indexes_def if_False)
  then show ?thesis by (simp add: no_close_refl)
qed

text \<open>
  What the body of the outer \<^verbatim>\<open>with\<close> block does about closing, once
  \<^verbatim>\<open>loadComponentFromURL\<close> has returned a document: when the index loop raises, the
  exception leaves \<^verbatim>\<open>convert\<close> and no \<^verbatim>\<open>close\<close> is among the remote calls made; when
  it does not, \<^verbatim>\<open>close\<close> is the last remote call and the only \<^verbatim>\<open>close\<close>, whatever the
  \<^verbatim>\<open>try\<close> block returns or raises.
\<close>

lemma load_and_export_close:
  assumes "files w input_path \<noteq> None"
    and "loadComponentFromURL env (fileUrl env input_path) props = Inr (Some doc)"
    and "refresh_indexes (update_index a) doc
           (log (LoadComponentFromURL (fileUrl env input_path) props) w) = (r, w2)"
    and "load_and_export env a props input_path w = (res, w')"
  shows "(case r of
            Some e \<Rightarrow> res = Inl (Propagated e) \<and> no_close w w'
          | None \<Rightarrow> \<exists>w3. no_close w w3 \<and> trace w' = trace w3 @ [CloseDocument])"
proof -
  let ?w1 = "log (LoadComponentFromURL (fileUrl env input_path) props) w"
  have "no_close w ?w1" by (simp add: no_close_log)
  with no_close_refresh_indexes [OF assms(3)] have s2: "no_close w w2"
    by (blast intro: no_close_trans)
  show ?thesis
  proof (cases r)
    case (Some e)
    with assms have "res = Inl (Propagated e) \<and> w' = w2"
      by (auto simp: load_and_export_def Let_def)
    with Some s2 show ?thesis by simp
  next
    case None
    obtain r3 w3 where ex: "export_document env a doc w2 = (r3, w3)"
      by (cases "export_document env a doc w2")
    with assms None have "w' = log CloseDocument w3"
      by (auto simp: load_and_export_def Let_def)
    then have "trace w' = trace w3 @ [CloseDocument]" by (simp add: log_def)
    moreover from no_close_export_document [OF ex] s2 have "no_close w w3"
      by (blast intro: no_close_trans)
    ultimately show ?thesis using None by auto
  qed
qed

text \<open>
  C1 fails on the code. The index loop of lines 238 to 253 stands before the \<^verbatim>\<open>try\<close>
  statement whose \<^verbatim>\<open>finally\<close> clause closes the document. Here the document is loaded,
  the \<^verbatim>\<open>update()\<close> of its first index raises, the exception leaves \<^verbatim>\<open>convert\<close>, and
  \<^verbatim>\<open>close\<close> is not among the remote calls made.
\<close>

theorem convert_index_failure_leaves_document_open:
  "convert broken_engine demo_args fresh =
     (Inl (Propagated (UnoException ''com.sun.star.uno.RuntimeException'')),
      fresh\<lparr>trace :=
        [LoadComponentFromURL ''file:///in.odt'' [(''ReadOnly'', VBool True)],
         Refresh, GetDocumentIndexes, IndexUpdate 0]\<rparr>) \<and>
   CloseDocument \<notin> set (trace (snd (convert broken_engine demo_args fresh)))"
  by (simp add: eval_simps)

text \<open>
  The same engine with a document whose indexes update: \<^verbatim>\<open>close\<close> is the last remote
  call, made once.
\<close>

lemma convert_demo_run:
  "convert demo_engine demo_args fresh =
     (Inr (Some ''%PDF-1.6''),
      fresh\<lparr>export_filters := Some [writer8, pdf_filter], temps := 1,
        trace :=
          [LoadComponentFromURL ''file:///in.odt'' [(''ReadOnly'', VBool True)],
           Refresh, GetDocumentIndexes, IndexUpdate 0,
           Refresh, GetDocumentIndexes, IndexUpdate 0,
           QueryTypeByURL ''file:///tmp/tmp.pdf'',
           CatalogQuery ''getSortedFilterList():iflags=2'',
           StoreToURL ''file:///tmp/tmp.pdf''
             [(''FilterName'', VStr ''writer_pdf_Export''), (''Overwrite'', VBool True)],
           CloseDocument]\<rparr>)"
  by (simp add: eval_simps fun_eq_iff)

section \<open>The result of \<^verbatim>\<open>convert\<close>\<close>

text \<open>
  C4 fails on the code. With an output path and no \<^verbatim>\<open>convert_to\<close>, the call the
  docstring describes, \<^verbatim>\<open>"." + convert_to\<close> raises \<^verbatim>\<open>TypeError\<close> before the output
  block is entered: nothing is written to the path, and \<^verbatim>\<open>convert\<close> raises.
\<close>

theorem convert_outpath_without_convert_to:
  "convert demo_engine (demo_args\<lparr>outpath := Some ''/out.pdf'', convert_to := None\<rparr>) fresh =
     (Inl TypeError,
      fresh\<lparr>trace :=
        [LoadComponentFromURL ''file:///in.odt'' [(''ReadOnly'', VBool True)],
         Refresh, GetDocumentIndexes, IndexUpdate 0,
         Refresh, GetDocumentIndexes, IndexUpdate 0,
         CloseDocument]\<rparr>) \<and>
   files (snd (convert demo_engine
                 (demo_args\<lparr>outpath := Some ''/out.pdf'', convert_to := None\<rparr>) fresh))
     ''/out.pdf'' = None"
  by (simp add: eval_simps)

text \<open>With both given, the file is written and nothing is returned.\<close>

lemma convert_outpath_with_convert_to:
  "fst (convert demo_engine (demo_args\<lparr>outpath := Some ''/out.pdf''\<rparr>) fresh) = Inr None \<and>
   files (snd (convert demo_engine (demo_args\<lparr>outpath := Some ''/out.pdf''\<rparr>) fresh))
     ''/out.pdf'' = Some ''%PDF-1.6''"
  by (simp add: eval_simps)

text \<open>
  An empty \<^verbatim>\<open>outpath\<close> is no path for \<^verbatim>\<open>TempFileIfNeeded\<close> (\<^verbatim>\<open>if path\<close>) and yet is
  not \<^verbatim>\<open>None\<close> at line 344: the export goes to a temporary file, nothing is returned,
  and the temporary file is deleted.
\<close>

lemma convert_empty_outpath:
  "fst (convert demo_engine (demo_args\<lparr>outpath := Some []\<rparr>) fresh) = Inr None \<and>
   files (snd (convert demo_engine (demo_args\<lparr>outpath := Some []\<rparr>) fresh))
     = files fresh"
  by (simp add: eval_simps fun_eq_iff)

text \<open>
  What holds of every call that returns: \<^verbatim>\<open>convert_to\<close> was given, and the result is
  \<^verbatim>\<open>None\<close> exactly when \<^verbatim>\<open>outpath\<close> was not \<^verbatim>\<open>None\<close>; otherwise it is bytes.
\<close>

lemma store_document_result:
  assumes "fst (store_document env a doc import_type ext output_path w) = Inr r"
  shows "(r = None) = (outpath a \<noteq> None)"
proof -
  let ?url = "fileUrl env output_path"
  let ?w1 = "log (QueryTypeByURL ?url) w"
  from assms have typed: "queryTypeByURL env ?url \<noteq> []"
    by (auto simp: store_document_def Let_def split: if_splits)
  obtain f w2 where
    sel: "select_filter env (filtername a) import_type (queryTypeByURL env ?url) ?w1 = (f, w2)"
    by (cases "select_filter env (filtername a) import_type (queryTypeByURL env ?url) ?w1")
  from assms typed sel obtain fname where f: "f = Inr fname"
    by (cases f) (auto simp: store_document_def Let_def)
  from assms typed sel f show ?thesis
    by (auto simp: store_document_def Let_def
        split: prod.splits sum.splits if_splits option.splits)
qed

lemma export_document_result:
  assumes "fst (export_document env a doc w) = Inr r"
  shows "convert_to a \<noteq> None \<and> (r = None) = (outpath a \<noteq> None)"
proof (cases "get_doc_type (set_pop env) doc")
  case (Inl e)
  with assms show ?thesis by (simp add: export_document_def)
next
  case (Inr import_type)
  show ?thesis
  proof (cases "convert_to a")
    case None
    with assms Inr show ?thesis by (simp add: export_document_def)
  next
    case (Some ext)
    obtain name t w1 where
      enter: "enter_TempFileIfNeeded env (outpath a) (CHR ''.'' # ext) None w = (name, t, w1)"
      by (cases "enter_TempFileIfNeeded env (outpath a) (CHR ''.'' # ext) None w") auto
    from assms Inr Some
      with_TempFileIfNeeded_fst [OF enter, where body = "store_document env a doc import_type ext"]
    have "fst (store_document env a doc import_type ext name w1) = Inr r"
      by (simp add: export_document_def)
    from store_document_result [OF this] Some show ?thesis by simp
  qed
qed

lemma load_and_export_result:
  assumes "fst (load_and_export env a props input_path w) = Inr r"
  shows "convert_to a \<noteq> None \<and> (r = None) = (outpath a \<noteq> None)"
proof -
  let ?w1 = "log (LoadComponentFromURL (fileUrl env input_path) props) w"
  from assms have exists: "files w input_path \<noteq> None"
    by (auto simp: load_and_export_def split: if_splits)
  with assms obtain doc where
    doc: "loadComponentFromURL env (fileUrl env input_path) props = Inr (Some doc)"
    by (cases "loadComponentFromURL env (fileUrl env input_path) props")
      (auto simp: load_and_export_def Let_def split: option.splits)
  obtain x w2 where loop: "refresh_indexes (update_index a) doc ?w1 = (x, w2)"
    by (cases "refresh_indexes (update_index a) doc ?w1")
  from assms exists doc loop have "x = None"
    by (cases x) (auto simp: load_and_export_def Let_def)
  with assms exists doc loop have "fst (export_document env a doc w2) = Inr r"
    by (auto simp: load_and_export_def Let_def split: prod.splits)
  then show ?thesis by (rule export_document_result)
qed

lemma convert_result:
  assumes "fst (convert env a w) = Inr r"
  shows "convert_to a \<noteq> None \<and> (r = None) = (outpath a \<noteq> None)"
proof -
  obtain p w1 where ip: "input_props env (infiltername a) w = (p, w1)"
    by (cases "input_props env (infiltername a) w")
  with assms obtain props where props: "p = Inr props"
    by (cases p) (auto simp: convert_def)
  obtain name t w2 where
    enter: "enter_TempFileIfNeeded env (inpath a) [] (indata a) w1 = (name, t, w2)"
    by (cases "enter_TempFileIfNeeded env (inpath a) [] (indata a) w1") auto
  from assms ip props
    with_TempFileIfNeeded_fst [OF enter, where body = "load_and_export env a props"]
  have "fst (load_and_export env a props name w2) = Inr r"
    by (simp add: convert_def)
  then show ?thesis by (rule load_and_export_result)
qed

lemma demo_engine_fields:
  "catalog demo_engine = (\<lambda>tr q.
        if CatalogQuery q \<in> set tr then []
        else if q = ''getSortedFilterList():iflags=1'' then [writer8]
        else [writer8, pdf_filter])"
  "loadComponentFromURL demo_engine = (\<lambda>url props.
        if url = ''file:///in.odt'' then Inr (Some text_doc) else Inr None)"
  "queryTypeByURL demo_engine = (\<lambda>url.
        if url = ''file:///out.pdf'' \<or> url = ''file:///tmp/tmp.pdf''
        then ''pdf_Portable_Document_Format'' else [])"
  "fileUrl demo_engine = (\<lambda>p. ''file://'' @ p)"
  "tempName demo_engine = (\<lambda>n suffix. ''/tmp/tmp'' @ replicate n CHR ''x'' @ suffix)"
  "set_pop demo_engine = hd"
  by (simp_all add: demo_engine_def)

lemma parse_long_decimal:
  "parse_filter_options demo_engine [''N='' @ replicate 4301 CHR ''1''] [] []
     = Inl (ValueError (replicate 4301 CHR ''1''))"
proof -
  let ?long = "replicate 4301 CHR ''1''"
  have len: "length ?long = 4301" by (rule length_replicate)
  have "length ?long \<noteq> length ''true''" "length ?long \<noteq> length ''false''"
    unfolding len by simp_all
  then have ne: "?long \<noteq> ''true''" "?long \<noteq> ''false''"
    by (metis, metis)
  have dec: "isdecimal demo_engine ?long"
    by (simp add: demo_engine_def ascii_isdecimal_def list_all_iff)
  have "int_str demo_engine ?long = None"
    by (simp add: demo_engine_def)
  with ne dec have c: "coerce demo_engine ?long = Inl (ValueError ?long)"
    by (simp add: coerce_def)
  have sp: "split_option (''N='' @ ?long) = (Some ''N'', ?long)"
    by (simp add: split_option_def)
  show ?thesis
    by (simp only: parse_filter_options.simps sp c Let_def prod.case sum.case)
qed

text \<open>
  An option whose value \<^verbatim>\<open>int\<close> refuses: the \<^verbatim>\<open>ValueError\<close> leaves \<^verbatim>\<open>convert\<close> from
  inside the \<^verbatim>\<open>try\<close> statement, so \<^verbatim>\<open>storeToURL\<close> is not called and the document is
  closed.
\<close>

lemma convert_long_decimal_option:
  "convert demo_engine
     (demo_args\<lparr>filter_options := [''N='' @ replicate 4301 CHR ''1'']\<rparr>) fresh =
     (Inl (ValueError (replicate 4301 CHR ''1'')),
      fresh\<lparr>export_filters := Some [writer8, pdf_filter], temps := 1,
        trace :=
          [LoadComponentFromURL ''file:///in.odt'' [(''ReadOnly'', VBool True)],
           Refresh, GetDocumentIndexes, IndexUpdate 0,
           Refresh, GetDocumentIndexes, IndexUpdate 0,
           QueryTypeByURL ''file:///tmp/tmp.pdf'',
           CatalogQuery ''getSortedFilterList():iflags=2'',
           CloseDocument]\<rparr>)"
proof -
  have parsed: "parse_filter_options demo_engine
                  [CHR ''N'' # CHR ''='' # replicate 4301 CHR ''1''] [] []
                  = Inl (ValueError (replicate 4301 CHR ''1''))"
    using parse_long_decimal by (simp del: parse_filter_options.simps)
  show ?thesis
    by (simp add: eval_simps demo_engine_fields parsed fun_eq_iff
        del: demo_engine_def parse_filter_options.simps)
qed

end
